theory Spec2Isabelle
  imports Complex_Main
begin

section \<open>libforest: the utilities of include/libforest/util.h\<close>

text \<open>
  The header holds two things: the stateless helpers of class \<open>Util\<close> and the class
  \<open>EfficientEntropyHistogram\<close>, a histogram over class labels that keeps the total
  mass and a mass-weighted entropy up to date under single additions and removals.

  Conventions of the embedding.
  \<^item> A \<open>std::vector<T>\<close> is a list; \<open>size_t\<close> is \<open>nat\<close> (no value computed here can
    exceed the length of a vector, so no wrap-around is reachable).
  \<^item> The C++ \<open>int\<close> of bin indices, bin counts and the number of bins is \<open>int\<close>;
    signed overflow (more than \<open>2^31 - 1\<close> observations in one bin) is outside the
    embedding.
  \<^item> The C++ \<open>float\<close> of \<open>mass\<close>, \<open>entropies\<close> and \<open>totalEntropy\<close> is embedded twice: as
    \<open>real\<close>, for the statements in exact arithmetic, and as a binary32 number with
    rounding, infinities and NaN (the definitions whose names end in 32), for the
    statements about what the code computes in \<open>float\<close>.
  \<^item> \<open>fastlog2\<close> is declared in fastlog.h, which this development does not have.
    It is a parameter \<open>fastlog2 :: real \<Rightarrow> real\<close> of every operation that uses it; nothing
    is assumed about it.
  \<^item> An object is a record; a method takes the object and returns the object after the
    call, together with the failure raised, if any.
\<close>

subsection \<open>Util::hammingDist\<close>

text \<open>The \<open>for\<close> loop of hammingDist: \<open>i\<close> runs up to the smaller of the two sizes.\<close>

function hammingDist_loop :: "'a list \<Rightarrow> 'a list \<Rightarrow> nat \<Rightarrow> nat \<Rightarrow> nat" where
  "hammingDist_loop v1 v2 i result =
     (if i < min (length v1) (length v2)
      then hammingDist_loop v1 v2 (i + 1) (if v1 ! i \<noteq> v2 ! i then result + 1 else result)
      else result)"
  by pat_completeness auto
termination
  by (relation "measure (\<lambda>(v1, v2, i, result). min (length v1) (length v2) - i)") auto

declare hammingDist_loop.simps [simp del]

definition hammingDist :: "'a list \<Rightarrow> 'a list \<Rightarrow> nat" where
  "hammingDist v1 v2 =
     (let result = (if length v1 > length v2 then length v1 - length v2
                    else if length v2 > length v1 then length v2 - length v1
                    else 0)
      in hammingDist_loop v1 v2 0 result)"

subsection \<open>Util::argMax\<close>

text \<open>
  The element type only needs \<open>operator>\<close>; the embedding takes a linear order.
  The loop starts at index 1 with \<open>arg = v[0]\<close>, \<open>index = 0\<close>.
\<close>

function argMax_loop :: "'a::linorder list \<Rightarrow> nat \<Rightarrow> 'a \<Rightarrow> nat \<Rightarrow> nat" where
  "argMax_loop v i arg index =
     (if i < length v
      then (if v ! i > arg then argMax_loop v (i + 1) (v ! i) i
            else argMax_loop v (i + 1) arg index)
      else index)"
  by pat_completeness auto
termination
  by (relation "measure (\<lambda>(v, i, arg, index). length v - i)") auto

declare argMax_loop.simps [simp del]

definition argMax :: "'a::linorder list \<Rightarrow> nat" where
  "argMax v = (if length v = 0 then 0 else argMax_loop v 1 (v ! 0) 0)"

subsection \<open>Failures\<close>

text \<open>
  Modelled from the spec: the failures a caller can observe. The exception type behind
  \<open>BOOST_ASSERT_MSG\<close> is declared in error_handling.h, which this development does not
  have; the spec's error taxonomy names a failed assertion by what it checks:
  \<^item> \<open>InvalidArgument\<close>: "Bin count must be non-negative." (resize);
  \<^item> \<open>IndexOutOfRange\<close>: "Bin index out of range." (at) and "Invalid bin bin index."
    (addOne, subOne);
  \<^item> \<open>PreconditionViolation\<close>: "Bin is already empty." (subOne).
\<close>

datatype error = InvalidArgument | IndexOutOfRange | PreconditionViolation

text \<open>
  Modelled from the spec: the macro \<open>BOOST_ASSERT_MSG\<close> and the handler behind it come
  from error_handling.h and Boost, which this development does not have. Following the
  spec's error handling design, an assertion whose condition is false is a local,
  synchronous failure surfaced to the caller at that point of the method.
  \<open>BOOST_ASSERT_MSG expr e\<close> is \<open>None\<close> when the method goes on and \<open>Some e\<close> when it
  stops with the failure \<open>e\<close>.
\<close>

definition BOOST_ASSERT_MSG :: "bool \<Rightarrow> error \<Rightarrow> error option" where
  "BOOST_ASSERT_MSG expr e = (if expr then None else Some e)"

subsection \<open>The macro ENTROPY\<close>

text \<open>
  \<open>#define ENTROPY(p) (-(p)*fastlog2(p))\<close>. The macro evaluates \<open>fastlog2\<close> at its
  argument whatever the argument is. To make that visible, the embedding returns the
  value together with the list of arguments at which \<open>fastlog2\<close> was evaluated.
\<close>

definition ENTROPY :: "(real \<Rightarrow> real) \<Rightarrow> real \<Rightarrow> real \<times> real list" where
  "ENTROPY fastlog2 p = (- p * fastlog2 p, [p])"

subsection \<open>The class EfficientEntropyHistogram\<close>

text \<open>
  The private fields. The two arrays are lists; a null pointer is the empty list
  (allocation and release of the storage are not modelled). The methods index the
  arrays only after an assertion that the index is below \<open>bins\<close>, and in every object a
  caller can reach both arrays have \<open>bins\<close> cells (\<open>well_formed\<close> below, a part of the
  invariant), so no read or write outside an array is reachable; the results about
  arbitrary objects state the length of the arrays as a hypothesis where they need it.
\<close>

record EfficientEntropyHistogram =
  bins :: int
  histogram :: "int list"
  mass :: real
  entropies :: "real list"
  totalEntropy :: real

text \<open>
  What a mutating method returns: the failure raised (if any), the object after the
  call, and the arguments at which the call evaluated \<open>fastlog2\<close>, in order.
\<close>

type_synonym outcome = "error option \<times> EfficientEntropyHistogram \<times> real list"

definition thrown :: "outcome \<Rightarrow> error option" where
  "thrown r = fst r"

definition object :: "outcome \<Rightarrow> EfficientEntropyHistogram" where
  "object r = fst (snd r)"

definition fastlog2_args :: "outcome \<Rightarrow> real list" where
  "fastlog2_args r = snd (snd r)"

text \<open>The default constructor.\<close>

definition EfficientEntropyHistogram_default :: EfficientEntropyHistogram where
  "EfficientEntropyHistogram_default =
     \<lparr>bins = 0, histogram = [], mass = 0, entropies = [], totalEntropy = 0\<rparr>"

text \<open>reset(): the loop over the bins, then the two scalars.\<close>

function reset_loop :: "int \<Rightarrow> EfficientEntropyHistogram \<Rightarrow> EfficientEntropyHistogram" where
  "reset_loop i h =
     (if i < bins h
      then reset_loop (i + 1)
             (h\<lparr>histogram := (histogram h)[nat i := 0],
                entropies := (entropies h)[nat i := 0]\<rparr>)
      else h)"
  by pat_completeness auto
termination
  by (relation "measure (\<lambda>(i, h). nat (bins h - i))") auto

declare reset_loop.simps [simp del]

definition reset :: "EfficientEntropyHistogram \<Rightarrow> EfficientEntropyHistogram" where
  "reset h = (reset_loop 0 h)\<lparr>totalEntropy := 0, mass := 0\<rparr>"

text \<open>
  resize(newBins). \<open>new int[bins]\<close> and \<open>new float[bins]\<close> return storage whose content is
  indeterminate: the parameters \<open>ui\<close> and \<open>uf\<close> give the content of each fresh cell, and
  nothing is assumed about them. reset() is called only when \<open>newBins > 0\<close>.
\<close>

definition resize ::
  "(nat \<Rightarrow> int) \<Rightarrow> (nat \<Rightarrow> real) \<Rightarrow> int \<Rightarrow> EfficientEntropyHistogram \<Rightarrow> outcome" where
  "resize ui uf newBins h =
     (case BOOST_ASSERT_MSG (newBins \<ge> 0) InvalidArgument of
        Some e \<Rightarrow> (Some e, h, [])
      | None \<Rightarrow>
          let h1 = (if newBins \<noteq> bins h then h\<lparr>histogram := [], entropies := []\<rparr> else h);
              h2 = h1\<lparr>bins := newBins\<rparr>
          in if newBins > 0
             then
               let h3 = h2\<lparr>histogram := map ui [0..<nat (bins h2)]\<rparr>;
                   h4 = h3\<lparr>entropies := map uf [0..<nat (bins h3)]\<rparr>
               in (None, reset h4, [])
             else (None, h2, []))"

text \<open>
  The constructor \<open>EfficientEntropyHistogram(int bins)\<close>: the fields of the default
  constructor, then resize. A failure of resize leaves no object.
\<close>

definition EfficientEntropyHistogram_bins ::
  "(nat \<Rightarrow> int) \<Rightarrow> (nat \<Rightarrow> real) \<Rightarrow> int \<Rightarrow> error + EfficientEntropyHistogram" where
  "EfficientEntropyHistogram_bins ui uf b =
     (let r = resize ui uf b EfficientEntropyHistogram_default
      in case thrown r of Some e \<Rightarrow> Inl e | None \<Rightarrow> Inr (object r))"

definition getSize :: "EfficientEntropyHistogram \<Rightarrow> int" where
  "getSize h = bins h"

text \<open>
  at(i), named \<open>at_bin\<close> here since \<open>at\<close> is a constant of the library. It is a const
  method: it returns the count or fails, and cannot change the object.
\<close>

definition at_bin :: "EfficientEntropyHistogram \<Rightarrow> int \<Rightarrow> error + int" where
  "at_bin h i =
     (case BOOST_ASSERT_MSG (i \<ge> 0 \<and> i < bins h) IndexOutOfRange of
        Some e \<Rightarrow> Inl e
      | None \<Rightarrow> Inr (histogram h ! nat i))"

definition addOne :: "(real \<Rightarrow> real) \<Rightarrow> int \<Rightarrow> EfficientEntropyHistogram \<Rightarrow> outcome" where
  "addOne fastlog2 i h =
     (case BOOST_ASSERT_MSG (i \<ge> 0 \<and> i < bins h) IndexOutOfRange of
        Some e \<Rightarrow> (Some e, h, [])
      | None \<Rightarrow>
          let (e1, l1) = ENTROPY fastlog2 (mass h);
              h1 = h\<lparr>totalEntropy := totalEntropy h + e1\<rparr>;
              h2 = h1\<lparr>mass := mass h1 + 1\<rparr>;
              (e2, l2) = ENTROPY fastlog2 (mass h2);
              h3 = h2\<lparr>totalEntropy := totalEntropy h2 - e2\<rparr>;
              h4 = h3\<lparr>histogram := (histogram h3)[nat i := histogram h3 ! nat i + 1]\<rparr>;
              h5 = h4\<lparr>totalEntropy := totalEntropy h4 - entropies h4 ! nat i\<rparr>;
              (e3, l3) = ENTROPY fastlog2 (real_of_int (histogram h5 ! nat i));
              h6 = h5\<lparr>entropies := (entropies h5)[nat i := e3]\<rparr>;
              h7 = h6\<lparr>totalEntropy := totalEntropy h6 + entropies h6 ! nat i\<rparr>
          in (None, h7, l1 @ l2 @ l3))"

definition subOne :: "(real \<Rightarrow> real) \<Rightarrow> int \<Rightarrow> EfficientEntropyHistogram \<Rightarrow> outcome" where
  "subOne fastlog2 i h =
     (case BOOST_ASSERT_MSG (i \<ge> 0 \<and> i < bins h) IndexOutOfRange of
        Some e \<Rightarrow> (Some e, h, [])
      | None \<Rightarrow>
         (case at_bin h i of
            Inl e \<Rightarrow> (Some e, h, [])
          | Inr c \<Rightarrow>
             (case BOOST_ASSERT_MSG (c > 0) PreconditionViolation of
                Some e \<Rightarrow> (Some e, h, [])
              | None \<Rightarrow>
                  let (e1, l1) = ENTROPY fastlog2 (mass h);
                      h1 = h\<lparr>totalEntropy := totalEntropy h + e1\<rparr>;
                      h2 = h1\<lparr>mass := mass h1 - 1\<rparr>;
                      (e2, l2) = ENTROPY fastlog2 (mass h2);
                      h3 = h2\<lparr>totalEntropy := totalEntropy h2 - e2\<rparr>;
                      h4 = h3\<lparr>histogram := (histogram h3)[nat i := histogram h3 ! nat i - 1]\<rparr>;
                      h5 = h4\<lparr>totalEntropy := totalEntropy h4 - entropies h4 ! nat i\<rparr>
                  in if histogram h5 ! nat i < 1
                     then (None, h5\<lparr>entropies := (entropies h5)[nat i := 0]\<rparr>, l1 @ l2)
                     else
                       let (e3, l3) = ENTROPY fastlog2 (real_of_int (histogram h5 ! nat i));
                           h6 = h5\<lparr>entropies := (entropies h5)[nat i := e3]\<rparr>;
                           h7 = h6\<lparr>totalEntropy := totalEntropy h6 + entropies h6 ! nat i\<rparr>
                       in (None, h7, l1 @ l2 @ l3))))"

definition getMass :: "EfficientEntropyHistogram \<Rightarrow> real" where
  "getMass h = mass h"

definition getEntropy :: "EfficientEntropyHistogram \<Rightarrow> real" where
  "getEntropy h = totalEntropy h"

text \<open>
  isPure() is a const method. The loop returns false as soon as a second bin with a
  positive count is met; the flag is called \<open>nonPure\<close> in the source.
\<close>

function isPure_loop :: "EfficientEntropyHistogram \<Rightarrow> int \<Rightarrow> bool \<Rightarrow> bool" where
  "isPure_loop h i nonPure =
     (if i < bins h
      then (if histogram h ! nat i > 0
            then (if nonPure then False else isPure_loop h (i + 1) True)
            else isPure_loop h (i + 1) nonPure)
      else True)"
  by pat_completeness auto
termination
  by (relation "measure (\<lambda>(h, i, nonPure). nat (bins h - i))") auto

declare isPure_loop.simps [simp del]

definition isPure :: "EfficientEntropyHistogram \<Rightarrow> bool" where
  "isPure h = isPure_loop h 0 False"

subsection \<open>Sequences of calls\<close>

text \<open>
  A caller's calls on one object, performed in order; the run stops at the first call
  that fails and returns its failure.
\<close>

datatype call = AddOne int | SubOne int | Resize int | Reset

fun perform ::
  "(real \<Rightarrow> real) \<Rightarrow> (nat \<Rightarrow> int) \<Rightarrow> (nat \<Rightarrow> real) \<Rightarrow> call \<Rightarrow> EfficientEntropyHistogram \<Rightarrow> outcome" where
  "perform fastlog2 ui uf (AddOne i) h = addOne fastlog2 i h"
| "perform fastlog2 ui uf (SubOne i) h = subOne fastlog2 i h"
| "perform fastlog2 ui uf (Resize n) h = resize ui uf n h"
| "perform fastlog2 ui uf Reset h = (None, reset h, [])"

fun run ::
  "(real \<Rightarrow> real) \<Rightarrow> (nat \<Rightarrow> int) \<Rightarrow> (nat \<Rightarrow> real) \<Rightarrow> call list \<Rightarrow> EfficientEntropyHistogram
     \<Rightarrow> error + EfficientEntropyHistogram" where
  "run fastlog2 ui uf [] h = Inr h"
| "run fastlog2 ui uf (c # cs) h =
     (case thrown (perform fastlog2 ui uf c h) of
        Some e \<Rightarrow> Inl e
      | None \<Rightarrow> run fastlog2 ui uf cs (object (perform fastlog2 ui uf c h)))"

text \<open>Construct a histogram with \<open>b\<close> bins, then perform the calls.\<close>

definition construct_and_run ::
  "(real \<Rightarrow> real) \<Rightarrow> (nat \<Rightarrow> int) \<Rightarrow> (nat \<Rightarrow> real) \<Rightarrow> int \<Rightarrow> call list
     \<Rightarrow> error + EfficientEntropyHistogram" where
  "construct_and_run fastlog2 ui uf b cs =
     (case EfficientEntropyHistogram_bins ui uf b of
        Inl e \<Rightarrow> Inl e
      | Inr h \<Rightarrow> run fastlog2 ui uf cs h)"

fun add_or_sub :: "call \<Rightarrow> bool" where
  "add_or_sub (AddOne i) = True"
| "add_or_sub (SubOne i) = True"
| "add_or_sub (Resize n) = False"
| "add_or_sub Reset = False"

subsection \<open>The quantities the invariants speak of\<close>

text \<open>
  The entropy contribution of a count or of the mass, as the specification defines it:
  \<open>- n * fastlog2 n\<close> for positive \<open>n\<close>, and 0 at 0, without a logarithm.
\<close>

definition contribution :: "(real \<Rightarrow> real) \<Rightarrow> real \<Rightarrow> real" where
  "contribution fastlog2 n = (if 0 < n then - n * fastlog2 n else 0)"

text \<open>
  The invariants of the data model. \<open>consistent\<close> relates the two scalars to a vector of
  counts: no count is negative, the mass is the sum of the counts, and the total entropy
  is the sum of the counts' contributions minus the contribution of the mass.
\<close>

definition consistent :: "(real \<Rightarrow> real) \<Rightarrow> int list \<Rightarrow> real \<Rightarrow> real \<Rightarrow> bool" where
  "consistent fastlog2 cs m t =
     (list_all (\<lambda>c. 0 \<le> c) cs
      \<and> m = real_of_int (sum_list cs)
      \<and> t = sum_list (map (\<lambda>c. contribution fastlog2 (real_of_int c)) cs)
            - contribution fastlog2 m)"

text \<open>The two arrays have \<open>bins\<close> cells each.\<close>

definition well_formed :: "EfficientEntropyHistogram \<Rightarrow> bool" where
  "well_formed h =
     (0 \<le> bins h
      \<and> length (histogram h) = nat (bins h)
      \<and> length (entropies h) = nat (bins h))"

text \<open>Each cached entropy is the contribution of the count of its bin.\<close>

definition cached :: "(real \<Rightarrow> real) \<Rightarrow> EfficientEntropyHistogram \<Rightarrow> bool" where
  "cached fastlog2 h =
     (entropies h = map (\<lambda>c. contribution fastlog2 (real_of_int c)) (histogram h))"

definition hist_inv :: "(real \<Rightarrow> real) \<Rightarrow> EfficientEntropyHistogram \<Rightarrow> bool" where
  "hist_inv fastlog2 h =
     (well_formed h \<and> cached fastlog2 h
      \<and> consistent fastlog2 (histogram h) (mass h) (totalEntropy h))"

text \<open>
  resize(0) releases the arrays and leaves the two scalars as they were. What holds of
  every object a caller can reach is therefore weaker: either the invariant, or there
  are no bins and the scalars are those of some earlier vector of counts.
\<close>

definition hist_weak_inv :: "(real \<Rightarrow> real) \<Rightarrow> EfficientEntropyHistogram \<Rightarrow> bool" where
  "hist_weak_inv fastlog2 h =
     (hist_inv fastlog2 h
      \<or> (bins h = 0 \<and> histogram h = [] \<and> entropies h = []
          \<and> (\<exists>cs. consistent fastlog2 cs (mass h) (totalEntropy h))))"

text \<open>The object with \<open>n\<close> bins in which every count, cache entry and scalar is zero.\<close>

definition zero_histogram :: "int \<Rightarrow> EfficientEntropyHistogram" where
  "zero_histogram n =
     \<lparr>bins = n, histogram = replicate (nat n) 0, mass = 0,
      entropies = replicate (nat n) 0, totalEntropy = 0\<rparr>"

subsection \<open>The class in binary32 arithmetic\<close>

text \<open>
  The fields \<open>mass\<close>, \<open>entropies\<close> and \<open>totalEntropy\<close> are \<open>float\<close>. The embedding above
  reads them as reals, for the statements made in exact arithmetic. The embedding below
  reads them as binary32 numbers, for the statements that rounding or the special
  values decide. It follows the same source lines; only the arithmetic differs.

  A binary32 value is a finite number, one of the two infinities, or NaN. \<open>Finite x\<close> is
  meant for a representable \<open>x\<close>: every operation below returns one, and the examples
  start from such numbers. The two zeros
  are one value: the class never divides and never tests a \<open>float\<close>, so the sign of a
  zero decides nothing, and a zero times an infinity is NaN whatever the signs.
\<close>

datatype float32 = Finite real | PlusInfinity | MinusInfinity | NaN

text \<open>
  Rounding to the nearest binary32 number, ties to even (the default rounding mode).
  \<open>exponent32 x\<close> is the exponent \<open>e\<close> with \<open>2^e \<le> |x| < 2^(e+1)\<close>, kept between -126 (the
  subnormal numbers share it) and 127; the numbers with that exponent are the multiples
  of \<open>2^(e-23)\<close>. A result of magnitude \<open>2^128\<close> or more is an infinity.
\<close>

fun exponent_up :: "nat \<Rightarrow> real \<Rightarrow> int" where
  "exponent_up 0 x = 0"
| "exponent_up (Suc n) x = (if 2 \<le> x then exponent_up n (x / 2) + 1 else 0)"

fun exponent_down :: "nat \<Rightarrow> real \<Rightarrow> int" where
  "exponent_down 0 x = 0"
| "exponent_down (Suc n) x = (if x < 1 then exponent_down n (2 * x) - 1 else 0)"

definition exponent32 :: "real \<Rightarrow> int" where
  "exponent32 x = (if 1 \<le> \<bar>x\<bar> then exponent_up 127 \<bar>x\<bar> else exponent_down 126 \<bar>x\<bar>)"

definition pow2 :: "int \<Rightarrow> real" where
  "pow2 e = (if 0 \<le> e then 2 ^ nat e else 1 / 2 ^ nat (- e))"

definition round_half_even :: "real \<Rightarrow> int" where
  "round_half_even y =
     (let f = \<lfloor>y\<rfloor>; d = y - of_int f
      in if d < 1 / 2 then f else if 1 / 2 < d then f + 1 else if even f then f else f + 1)"

definition round32 :: "real \<Rightarrow> float32" where
  "round32 x =
     (let q = pow2 (exponent32 x - 23);
          r = of_int (round_half_even (x / q)) * q
      in if 2 ^ 128 \<le> r then PlusInfinity
         else if r \<le> - (2 ^ 128) then MinusInfinity
         else Finite r)"

text \<open>
  The operations the class uses: unary minus, \<open>+\<close>, \<open>-\<close>, \<open>*\<close>, and the conversion of an
  \<open>int\<close> to \<open>float\<close>. Each is evaluated in \<open>float\<close> and rounds once (no wider intermediate
  format, no fused multiply-add). NaN propagates; the sum of opposite infinities and the
  product of a zero and an infinity are NaN.
\<close>

fun f32_neg :: "float32 \<Rightarrow> float32" where
  "f32_neg (Finite x) = Finite (- x)"
| "f32_neg PlusInfinity = MinusInfinity"
| "f32_neg MinusInfinity = PlusInfinity"
| "f32_neg NaN = NaN"

fun f32_add :: "float32 \<Rightarrow> float32 \<Rightarrow> float32" where
  "f32_add NaN b = NaN"
| "f32_add a NaN = NaN"
| "f32_add PlusInfinity MinusInfinity = NaN"
| "f32_add MinusInfinity PlusInfinity = NaN"
| "f32_add PlusInfinity b = PlusInfinity"
| "f32_add MinusInfinity b = MinusInfinity"
| "f32_add a PlusInfinity = PlusInfinity"
| "f32_add a MinusInfinity = MinusInfinity"
| "f32_add (Finite x) (Finite y) = round32 (x + y)"

definition f32_sub :: "float32 \<Rightarrow> float32 \<Rightarrow> float32" where
  "f32_sub a b = f32_add a (f32_neg b)"

fun f32_mul :: "float32 \<Rightarrow> float32 \<Rightarrow> float32" where
  "f32_mul NaN b = NaN"
| "f32_mul a NaN = NaN"
| "f32_mul (Finite x) (Finite y) = round32 (x * y)"
| "f32_mul (Finite x) PlusInfinity =
     (if x = 0 then NaN else if 0 < x then PlusInfinity else MinusInfinity)"
| "f32_mul (Finite x) MinusInfinity =
     (if x = 0 then NaN else if 0 < x then MinusInfinity else PlusInfinity)"
| "f32_mul PlusInfinity (Finite y) =
     (if y = 0 then NaN else if 0 < y then PlusInfinity else MinusInfinity)"
| "f32_mul MinusInfinity (Finite y) =
     (if y = 0 then NaN else if 0 < y then MinusInfinity else PlusInfinity)"
| "f32_mul PlusInfinity PlusInfinity = PlusInfinity"
| "f32_mul PlusInfinity MinusInfinity = MinusInfinity"
| "f32_mul MinusInfinity PlusInfinity = MinusInfinity"
| "f32_mul MinusInfinity MinusInfinity = PlusInfinity"

definition f32_of_int :: "int \<Rightarrow> float32" where
  "f32_of_int n = round32 (of_int n)"

text \<open>
  \<open>ENTROPY(p)\<close> is \<open>(-(p)*fastlog2(p))\<close>. \<open>fastlog2\<close> is a parameter here as well, a function
  from binary32 to binary32 (the type of the fields it is applied to and assigned to).
  Applied to \<open>mass\<close>, the macro negates a \<open>float\<close>. Applied to \<open>histogram[i]\<close>, it negates an
  \<open>int\<close>, which the product converts to \<open>float\<close>, and the call converts the argument.
\<close>

definition ENTROPY32 :: "(float32 \<Rightarrow> float32) \<Rightarrow> float32 \<Rightarrow> float32" where
  "ENTROPY32 fastlog2 p = f32_mul (f32_neg p) (fastlog2 p)"

definition ENTROPY32_int :: "(float32 \<Rightarrow> float32) \<Rightarrow> int \<Rightarrow> float32" where
  "ENTROPY32_int fastlog2 p = f32_mul (f32_of_int (- p)) (fastlog2 (f32_of_int p))"

text \<open>
  The class: the fields, reset, resize, the constructor, at, addOne, subOne and the two
  getters, line by line as above. The literals 0 and 1 assigned to or added to a \<open>float\<close>
  are converted.
\<close>

record EfficientEntropyHistogram32 =
  bins32 :: int
  histogram32 :: "int list"
  mass32 :: float32
  entropies32 :: "float32 list"
  totalEntropy32 :: float32

type_synonym outcome32 = "error option \<times> EfficientEntropyHistogram32"

function reset_loop32 :: "int \<Rightarrow> EfficientEntropyHistogram32 \<Rightarrow> EfficientEntropyHistogram32" where
  "reset_loop32 i h =
     (if i < bins32 h
      then reset_loop32 (i + 1)
             (h\<lparr>histogram32 := (histogram32 h)[nat i := 0],
                entropies32 := (entropies32 h)[nat i := f32_of_int 0]\<rparr>)
      else h)"
  by pat_completeness auto
termination
  by (relation "measure (\<lambda>(i, h). nat (bins32 h - i))") auto

declare reset_loop32.simps [simp del]

definition reset32 :: "EfficientEntropyHistogram32 \<Rightarrow> EfficientEntropyHistogram32" where
  "reset32 h = (reset_loop32 0 h)\<lparr>totalEntropy32 := f32_of_int 0, mass32 := f32_of_int 0\<rparr>"

definition resize32 ::
  "(nat \<Rightarrow> int) \<Rightarrow> (nat \<Rightarrow> float32) \<Rightarrow> int \<Rightarrow> EfficientEntropyHistogram32 \<Rightarrow> outcome32" where
  "resize32 ui uf newBins h =
     (case BOOST_ASSERT_MSG (newBins \<ge> 0) InvalidArgument of
        Some e \<Rightarrow> (Some e, h)
      | None \<Rightarrow>
          let h1 = (if newBins \<noteq> bins32 h then h\<lparr>histogram32 := [], entropies32 := []\<rparr> else h);
              h2 = h1\<lparr>bins32 := newBins\<rparr>
          in if newBins > 0
             then
               let h3 = h2\<lparr>histogram32 := map ui [0..<nat (bins32 h2)]\<rparr>;
                   h4 = h3\<lparr>entropies32 := map uf [0..<nat (bins32 h3)]\<rparr>
               in (None, reset32 h4)
             else (None, h2))"

definition EfficientEntropyHistogram32_bins ::
  "(nat \<Rightarrow> int) \<Rightarrow> (nat \<Rightarrow> float32) \<Rightarrow> int \<Rightarrow> error + EfficientEntropyHistogram32" where
  "EfficientEntropyHistogram32_bins ui uf b =
     (case resize32 ui uf b
             \<lparr>bins32 = 0, histogram32 = [], mass32 = f32_of_int 0, entropies32 = [],
              totalEntropy32 = f32_of_int 0\<rparr> of
        (Some e, h) \<Rightarrow> Inl e
      | (None, h) \<Rightarrow> Inr h)"

definition at32 :: "EfficientEntropyHistogram32 \<Rightarrow> int \<Rightarrow> error + int" where
  "at32 h i =
     (case BOOST_ASSERT_MSG (i \<ge> 0 \<and> i < bins32 h) IndexOutOfRange of
        Some e \<Rightarrow> Inl e
      | None \<Rightarrow> Inr (histogram32 h ! nat i))"

definition addOne32 ::
  "(float32 \<Rightarrow> float32) \<Rightarrow> int \<Rightarrow> EfficientEntropyHistogram32 \<Rightarrow> outcome32" where
  "addOne32 fastlog2 i h =
     (case BOOST_ASSERT_MSG (i \<ge> 0 \<and> i < bins32 h) IndexOutOfRange of
        Some e \<Rightarrow> (Some e, h)
      | None \<Rightarrow>
          let h1 = h\<lparr>totalEntropy32 := f32_add (totalEntropy32 h) (ENTROPY32 fastlog2 (mass32 h))\<rparr>;
              h2 = h1\<lparr>mass32 := f32_add (mass32 h1) (f32_of_int 1)\<rparr>;
              h3 = h2\<lparr>totalEntropy32 := f32_sub (totalEntropy32 h2) (ENTROPY32 fastlog2 (mass32 h2))\<rparr>;
              h4 = h3\<lparr>histogram32 := (histogram32 h3)[nat i := histogram32 h3 ! nat i + 1]\<rparr>;
              h5 = h4\<lparr>totalEntropy32 := f32_sub (totalEntropy32 h4) (entropies32 h4 ! nat i)\<rparr>;
              h6 = h5\<lparr>entropies32 :=
                     (entropies32 h5)[nat i := ENTROPY32_int fastlog2 (histogram32 h5 ! nat i)]\<rparr>;
              h7 = h6\<lparr>totalEntropy32 := f32_add (totalEntropy32 h6) (entropies32 h6 ! nat i)\<rparr>
          in (None, h7))"

definition subOne32 ::
  "(float32 \<Rightarrow> float32) \<Rightarrow> int \<Rightarrow> EfficientEntropyHistogram32 \<Rightarrow> outcome32" where
  "subOne32 fastlog2 i h =
     (case BOOST_ASSERT_MSG (i \<ge> 0 \<and> i < bins32 h) IndexOutOfRange of
        Some e \<Rightarrow> (Some e, h)
      | None \<Rightarrow>
         (case at32 h i of
            Inl e \<Rightarrow> (Some e, h)
          | Inr c \<Rightarrow>
             (case BOOST_ASSERT_MSG (c > 0) PreconditionViolation of
                Some e \<Rightarrow> (Some e, h)
              | None \<Rightarrow>
                  let h1 = h\<lparr>totalEntropy32 := f32_add (totalEntropy32 h) (ENTROPY32 fastlog2 (mass32 h))\<rparr>;
                      h2 = h1\<lparr>mass32 := f32_sub (mass32 h1) (f32_of_int 1)\<rparr>;
                      h3 = h2\<lparr>totalEntropy32 := f32_sub (totalEntropy32 h2) (ENTROPY32 fastlog2 (mass32 h2))\<rparr>;
                      h4 = h3\<lparr>histogram32 := (histogram32 h3)[nat i := histogram32 h3 ! nat i - 1]\<rparr>;
                      h5 = h4\<lparr>totalEntropy32 := f32_sub (totalEntropy32 h4) (entropies32 h4 ! nat i)\<rparr>
                  in if histogram32 h5 ! nat i < 1
                     then (None, h5\<lparr>entropies32 := (entropies32 h5)[nat i := f32_of_int 0]\<rparr>)
                     else
                       let h6 = h5\<lparr>entropies32 :=
                                  (entropies32 h5)[nat i := ENTROPY32_int fastlog2 (histogram32 h5 ! nat i)]\<rparr>;
                           h7 = h6\<lparr>totalEntropy32 := f32_add (totalEntropy32 h6) (entropies32 h6 ! nat i)\<rparr>
                       in (None, h7))))"

definition getMass32 :: "EfficientEntropyHistogram32 \<Rightarrow> float32" where
  "getMass32 h = mass32 h"

definition getEntropy32 :: "EfficientEntropyHistogram32 \<Rightarrow> float32" where
  "getEntropy32 h = totalEntropy32 h"

fun perform32 ::
  "(float32 \<Rightarrow> float32) \<Rightarrow> (nat \<Rightarrow> int) \<Rightarrow> (nat \<Rightarrow> float32) \<Rightarrow> call
     \<Rightarrow> EfficientEntropyHistogram32 \<Rightarrow> outcome32" where
  "perform32 fastlog2 ui uf (AddOne i) h = addOne32 fastlog2 i h"
| "perform32 fastlog2 ui uf (SubOne i) h = subOne32 fastlog2 i h"
| "perform32 fastlog2 ui uf (Resize n) h = resize32 ui uf n h"
| "perform32 fastlog2 ui uf Reset h = (None, reset32 h)"

fun run32 ::
  "(float32 \<Rightarrow> float32) \<Rightarrow> (nat \<Rightarrow> int) \<Rightarrow> (nat \<Rightarrow> float32) \<Rightarrow> call list
     \<Rightarrow> EfficientEntropyHistogram32 \<Rightarrow> error + EfficientEntropyHistogram32" where
  "run32 fastlog2 ui uf [] h = Inr h"
| "run32 fastlog2 ui uf (c # cs) h =
     (case perform32 fastlog2 ui uf c h of
        (Some e, h') \<Rightarrow> Inl e
      | (None, h') \<Rightarrow> run32 fastlog2 ui uf cs h')"

definition construct_and_run32 ::
  "(float32 \<Rightarrow> float32) \<Rightarrow> (nat \<Rightarrow> int) \<Rightarrow> (nat \<Rightarrow> float32) \<Rightarrow> int \<Rightarrow> call list
     \<Rightarrow> error + EfficientEntropyHistogram32" where
  "construct_and_run32 fastlog2 ui uf b cs =
     (case EfficientEntropyHistogram32_bins ui uf b of
        Inl e \<Rightarrow> Inl e
      | Inr h \<Rightarrow> run32 fastlog2 ui uf cs h)"

text \<open>
  A logarithm for the examples: the binary32 numbers nearest to the base-2 logarithm at
  the arguments 1, ..., 8 (exact at 1, 2, 4 and 8), the value \<open>at0\<close> at 0, and NaN at every
  other argument, which no example reaches. With \<open>at0 = MinusInfinity\<close> it is IEEE's
  exact logarithm on these arguments (\<open>log2(0) = -inf\<close>).
\<close>

definition log2_rounded :: "float32 \<Rightarrow> float32 \<Rightarrow> float32" where
  "log2_rounded at0 x =
     (if x = Finite 0 then at0
      else if x = Finite 1 then Finite 0
      else if x = Finite 2 then Finite 1
      else if x = Finite 3 then Finite (13295629 / 8388608)
      else if x = Finite 4 then Finite 2
      else if x = Finite 5 then Finite (1217359 / 524288)
      else if x = Finite 6 then Finite (10842119 / 4194304)
      else if x = Finite 7 then Finite (2943725 / 1048576)
      else if x = Finite 8 then Finite 3
      else NaN)"

section \<open>Util::hammingDist\<close>

text \<open>
  The loop adds to \<open>result\<close> the number of indices from \<open>i\<close> up to the smaller size at
  which the two vectors differ. Every index the loop reads is below both sizes.
\<close>

lemma hammingDist_loop_count:
  "hammingDist_loop v1 v2 i result =
     result + card {j. i \<le> j \<and> j < min (length v1) (length v2) \<and> v1 ! j \<noteq> v2 ! j}"
proof (induction v1 v2 i result rule: hammingDist_loop.induct)
  case (1 v1 v2 i result)
  let ?n = "min (length v1) (length v2)"
  let ?D = "\<lambda>k. {j. k \<le> j \<and> j < ?n \<and> v1 ! j \<noteq> v2 ! j}"
  show ?case
  proof (cases "i < ?n")
    case False
    then have "?D i = {}" by auto
    moreover from False have "hammingDist_loop v1 v2 i result = result"
      by (subst hammingDist_loop.simps) auto
    ultimately show ?thesis by simp
  next
    case True
    have fin: "finite (?D (i + 1))" by simp
    have notin: "i \<notin> ?D (i + 1)" by simp
    from True have unfold: "hammingDist_loop v1 v2 i result =
        hammingDist_loop v1 v2 (i + 1) (if v1 ! i \<noteq> v2 ! i then result + 1 else result)"
      by (subst hammingDist_loop.simps) simp
    show ?thesis
    proof (cases "v1 ! i \<noteq> v2 ! i")
      case differ: True
      have "?D i = insert i (?D (i + 1))" using True differ by auto
      then have "card (?D i) = Suc (card (?D (i + 1)))"
        using fin notin by simp
      with differ "1.IH" [OF True] show ?thesis
        unfolding unfold by simp
    next
      case same: False
      have "?D i = ?D (i + 1)"
        using same by (auto simp: le_eq_less_or_eq Suc_le_eq)
      with same "1.IH" [OF True] show ?thesis
        unfolding unfold by simp
    qed
  qed
qed

lemma hammingDist_closed:
  "hammingDist v1 v2 =
     nat \<bar>int (length v1) - int (length v2)\<bar> +
     card {i. i < min (length v1) (length v2) \<and> v1 ! i \<noteq> v2 ! i}"
proof -
  have "nat \<bar>int (length v1) - int (length v2)\<bar> =
        (if length v1 > length v2 then length v1 - length v2
         else if length v2 > length v1 then length v2 - length v1
         else 0)"
    by auto
  then show ?thesis
    by (simp add: hammingDist_def hammingDist_loop_count)
qed

text \<open>
  Claim C9. For every pair of vectors, hammingDist returns the absolute difference of
  their lengths plus the number of indices below the smaller length at which the vectors
  differ. Hence it is defined on vectors of unequal lengths, it is symmetric in its
  arguments, and it returns 0 exactly when the two vectors are equal.
\<close>

theorem hammingDist_correct:
  "hammingDist v1 v2 =
     nat \<bar>int (length v1) - int (length v2)\<bar> +
     card {i. i < min (length v1) (length v2) \<and> v1 ! i \<noteq> v2 ! i}
   \<and> hammingDist v1 v2 = hammingDist v2 v1
   \<and> (hammingDist v1 v2 = 0) = (v1 = v2)"
proof -
  let ?n = "min (length v1) (length v2)"
  have sym: "hammingDist v1 v2 = hammingDist v2 v1"
  proof -
    have "{i. i < min (length v1) (length v2) \<and> v1 ! i \<noteq> v2 ! i} =
          {i. i < min (length v2) (length v1) \<and> v2 ! i \<noteq> v1 ! i}"
      by (auto simp: min.commute)
    then show ?thesis by (simp add: hammingDist_closed abs_minus_commute)
  qed
  have zero: "(hammingDist v1 v2 = 0) = (v1 = v2)"
  proof
    assume "hammingDist v1 v2 = 0"
    then have len: "length v1 = length v2"
      and card0: "card {i. i < ?n \<and> v1 ! i \<noteq> v2 ! i} = 0"
      by (simp_all add: hammingDist_closed)
    have "finite {i. i < ?n \<and> v1 ! i \<noteq> v2 ! i}" by simp
    with card0 have "{i. i < ?n \<and> v1 ! i \<noteq> v2 ! i} = {}" by simp
    then have "\<forall>i<length v1. v1 ! i = v2 ! i" using len by auto
    with len show "v1 = v2" by (simp add: list_eq_iff_nth_eq)
  next
    assume "v1 = v2"
    then show "hammingDist v1 v2 = 0" by (simp add: hammingDist_closed)
  qed
  from hammingDist_closed sym zero show ?thesis by blast
qed

section \<open>Util::argMax\<close>

text \<open>
  The loop invariant: \<open>index\<close> is below \<open>i\<close>, \<open>arg\<close> is the element at \<open>index\<close>, no
  element before \<open>i\<close> exceeds \<open>arg\<close>, and every element before \<open>index\<close> is strictly
  smaller than \<open>arg\<close>.
\<close>

lemma argMax_loop_inv:
  "\<lbrakk>index < i; i \<le> length v; arg = v ! index;
    \<forall>j<i. v ! j \<le> arg; \<forall>j<index. v ! j < arg\<rbrakk>
   \<Longrightarrow> argMax_loop v i arg index < length v
       \<and> (\<forall>j<length v. v ! j \<le> v ! argMax_loop v i arg index)
       \<and> (\<forall>j<argMax_loop v i arg index. v ! j < v ! argMax_loop v i arg index)"
proof (induction v i arg index rule: argMax_loop.induct)
  case (1 v i arg index)
  show ?case
  proof (cases "i < length v")
    case False
    then have "argMax_loop v i arg index = index"
      by (subst argMax_loop.simps) simp
    moreover from False "1.prems" have "i = length v" by simp
    ultimately show ?thesis using "1.prems" by simp
  next
    case True
    show ?thesis
    proof (cases "v ! i > arg")
      case bigger: True
      have a: "\<forall>j<i + 1. v ! j \<le> v ! i"
        using "1.prems" bigger by (auto simp: less_Suc_eq intro: less_imp_le order.trans)
      have b: "\<forall>j<i. v ! j < v ! i"
        using "1.prems" bigger by (auto intro: le_less_trans)
      from True bigger have "argMax_loop v i arg index = argMax_loop v (i + 1) (v ! i) i"
        by (subst argMax_loop.simps) simp
      with "1.IH"(1) [OF True bigger _ _ refl a b] True show ?thesis
        by simp
    next
      case notbigger: False
      have a: "\<forall>j<i + 1. v ! j \<le> arg"
        using "1.prems" notbigger by (auto simp: less_Suc_eq)
      from True notbigger have "argMax_loop v i arg index = argMax_loop v (i + 1) arg index"
        by (subst argMax_loop.simps) simp
      with "1.IH"(2) [OF True notbigger _ _ "1.prems"(3) a "1.prems"(5)] "1.prems" True
      show ?thesis
        by simp
    qed
  qed
qed

text \<open>
  Claim C10. For the empty vector argMax returns 0. For a non-empty vector it returns the
  smallest index of a maximal element: an index \<open>i\<close> of the vector such that no element
  exceeds \<open>v[i]\<close> and every element before \<open>i\<close> is strictly smaller than \<open>v[i]\<close>.
\<close>

theorem argMax_correct:
  "argMax ([] :: 'a::linorder list) = 0
   \<and> (v \<noteq> [] \<longrightarrow>
        argMax v < length v
        \<and> (\<forall>j<length v. v ! j \<le> v ! argMax v)
        \<and> (\<forall>j<argMax v. v ! j < v ! argMax v))"
proof -
  have "argMax ([] :: 'a list) = 0" by (simp add: argMax_def)
  moreover have "argMax v < length v
        \<and> (\<forall>j<length v. v ! j \<le> v ! argMax v)
        \<and> (\<forall>j<argMax v. v ! j < v ! argMax v)" if "v \<noteq> []"
  proof -
    from that have "0 < length v" by simp
    then have "argMax_loop v 1 (v ! 0) 0 < length v
       \<and> (\<forall>j<length v. v ! j \<le> v ! argMax_loop v 1 (v ! 0) 0)
       \<and> (\<forall>j<argMax_loop v 1 (v ! 0) 0. v ! j < v ! argMax_loop v 1 (v ! 0) 0)"
      by (intro argMax_loop_inv) (auto simp: Suc_le_eq)
    with that show ?thesis by (simp add: argMax_def)
  qed
  ultimately show ?thesis by blast
qed

text \<open>The vector 1, 3, 2, 3 has its maximum at the indices 1 and 3; argMax returns 1.\<close>

theorem argMax_correct_witness:
  "[1::int, 3, 2, 3] \<noteq> []
   \<and> argMax [1::int, 3, 2, 3] = 1
   \<and> [1::int, 3, 2, 3] ! 0 < [1::int, 3, 2, 3] ! argMax [1::int, 3, 2, 3]
   \<and> [1::int, 3, 2, 3] ! 3 \<le> [1::int, 3, 2, 3] ! argMax [1::int, 3, 2, 3]"
  using argMax_correct [of "[1::int, 3, 2, 3]"]
  by (simp add: argMax_def argMax_loop.simps)

section \<open>EfficientEntropyHistogram: what each method does\<close>

subsection \<open>reset and resize\<close>

text \<open>
  The loop of reset() leaves the scalars alone and, started at \<open>i\<close> on arrays of \<open>bins\<close>
  cells, zeroes the cells from \<open>i\<close> on. Started at 0 it zeroes all of them, whatever the
  arrays held.
\<close>

lemma bins_reset_loop [simp]: "bins (reset_loop i h) = bins h"
  by (induction i h rule: reset_loop.induct) (subst reset_loop.simps, simp)

lemma mass_reset_loop [simp]: "mass (reset_loop i h) = mass h"
  by (induction i h rule: reset_loop.induct) (subst reset_loop.simps, simp)

lemma totalEntropy_reset_loop [simp]: "totalEntropy (reset_loop i h) = totalEntropy h"
  by (induction i h rule: reset_loop.induct) (subst reset_loop.simps, simp)

lemma take_Suc_update:
  "k < length xs \<Longrightarrow> take (Suc k) (xs[k := z]) = take k xs @ [z]"
  by (simp add: take_Suc_conv_app_nth)

lemma replicate_diff_Suc:
  "k < n \<Longrightarrow> replicate (n - k) z = z # replicate (n - Suc k) z"
  using Suc_diff_Suc [of k n] by (metis replicate_Suc)

lemma reset_loop_arrays:
  "\<lbrakk>0 \<le> i; length (histogram h) = nat (bins h); length (entropies h) = nat (bins h)\<rbrakk>
   \<Longrightarrow> histogram (reset_loop i h) =
         take (nat i) (histogram h) @ replicate (nat (bins h) - nat i) 0
       \<and> entropies (reset_loop i h) =
         take (nat i) (entropies h) @ replicate (nat (bins h) - nat i) 0"
proof (induction i h rule: reset_loop.induct)
  case (1 i h)
  show ?case
  proof (cases "i < bins h")
    case False
    then have "reset_loop i h = h" by (subst reset_loop.simps) simp
    with False "1.prems" show ?thesis by simp
  next
    case True
    let ?h = "h\<lparr>histogram := (histogram h)[nat i := 0],
                entropies := (entropies h)[nat i := 0]\<rparr>"
    from True have unfold: "reset_loop i h = reset_loop (i + 1) ?h"
      by (subst reset_loop.simps) simp
    from True "1.prems" have klt: "nat i < nat (bins h)" and knext: "nat (i + 1) = Suc (nat i)"
      by linarith+
    have IH: "histogram (reset_loop (i + 1) ?h) =
         take (nat (i + 1)) (histogram ?h) @ replicate (nat (bins ?h) - nat (i + 1)) 0
       \<and> entropies (reset_loop (i + 1) ?h) =
         take (nat (i + 1)) (entropies ?h) @ replicate (nat (bins ?h) - nat (i + 1)) 0"
      by (rule "1.IH" [OF True]) (use "1.prems" in simp_all)
    have "take (nat (i + 1)) (histogram ?h) = take (nat i) (histogram h) @ [0]"
      using klt "1.prems" by (simp only: knext) (simp add: take_Suc_update)
    moreover have "take (nat (i + 1)) (entropies ?h) = take (nat i) (entropies h) @ [0]"
      using klt "1.prems" by (simp only: knext) (simp add: take_Suc_update)
    moreover have "replicate (nat (bins h) - nat i) (0::int) =
        0 # replicate (nat (bins ?h) - nat (i + 1)) 0"
      using replicate_diff_Suc [OF klt] by (simp only: knext) simp
    moreover have "replicate (nat (bins h) - nat i) (0::real) =
        0 # replicate (nat (bins ?h) - nat (i + 1)) 0"
      using replicate_diff_Suc [OF klt] by (simp only: knext) simp
    ultimately show ?thesis
      unfolding unfold using IH by simp
  qed
qed

lemma reset_closed:
  "\<lbrakk>length (histogram h) = nat (bins h); length (entropies h) = nat (bins h)\<rbrakk>
   \<Longrightarrow> reset h = zero_histogram (bins h)"
  using reset_loop_arrays [of 0 h]
  by (simp add: reset_def zero_histogram_def)

lemma resize_negative:
  "newBins < 0 \<Longrightarrow> resize ui uf newBins h = (Some InvalidArgument, h, [])"
  by (simp add: resize_def BOOST_ASSERT_MSG_def)

lemma resize_positive:
  "0 < newBins \<Longrightarrow> resize ui uf newBins h = (None, zero_histogram newBins, [])"
  by (simp add: resize_def BOOST_ASSERT_MSG_def Let_def reset_closed)

lemma resize_zero:
  "resize ui uf 0 h =
     (None,
      (if bins h \<noteq> 0 then h\<lparr>histogram := [], entropies := []\<rparr> else h)\<lparr>bins := 0\<rparr>, [])"
  by (simp add: resize_def BOOST_ASSERT_MSG_def Let_def)

subsection \<open>addOne and subOne\<close>

text \<open>
  Each call either fails at one of its assertions, before any assignment, or runs its
  body to the end. The fields after a call that runs are given one by one.
\<close>

lemma outcome_simps [simp]:
  "thrown (e, h, l) = e" "object (e, h, l) = h" "fastlog2_args (e, h, l) = l"
  by (simp_all add: thrown_def object_def fastlog2_args_def)

lemma addOne_invalid:
  "\<not> (0 \<le> i \<and> i < bins h) \<Longrightarrow> addOne fastlog2 i h = (Some IndexOutOfRange, h, [])"
  by (auto simp: addOne_def BOOST_ASSERT_MSG_def)

lemma addOne_valid:
  assumes "0 \<le> i" "i < bins h"
    and "nat i < length (histogram h)" "nat i < length (entropies h)"
  shows "thrown (addOne fastlog2 i h) = None"
    and "bins (object (addOne fastlog2 i h)) = bins h"
    and "mass (object (addOne fastlog2 i h)) = mass h + 1"
    and "histogram (object (addOne fastlog2 i h)) =
           (histogram h)[nat i := histogram h ! nat i + 1]"
    and "entropies (object (addOne fastlog2 i h)) =
           (entropies h)[nat i :=
              - real_of_int (histogram h ! nat i + 1)
                * fastlog2 (real_of_int (histogram h ! nat i + 1))]"
    and "totalEntropy (object (addOne fastlog2 i h)) =
           totalEntropy h + (- mass h * fastlog2 (mass h))
           - (- (mass h + 1) * fastlog2 (mass h + 1))
           - entropies h ! nat i
           + (- real_of_int (histogram h ! nat i + 1)
                * fastlog2 (real_of_int (histogram h ! nat i + 1)))"
    and "fastlog2_args (addOne fastlog2 i h) =
           [mass h, mass h + 1, real_of_int (histogram h ! nat i + 1)]"
  using assms
  by (simp_all add: addOne_def BOOST_ASSERT_MSG_def ENTROPY_def Let_def algebra_simps)

lemma subOne_invalid:
  "\<not> (0 \<le> i \<and> i < bins h) \<Longrightarrow> subOne fastlog2 i h = (Some IndexOutOfRange, h, [])"
  by (auto simp: subOne_def BOOST_ASSERT_MSG_def)

lemma subOne_empty_bin:
  "\<lbrakk>0 \<le> i; i < bins h; \<not> 0 < histogram h ! nat i\<rbrakk>
   \<Longrightarrow> subOne fastlog2 i h = (Some PreconditionViolation, h, [])"
  by (simp add: subOne_def at_bin_def BOOST_ASSERT_MSG_def)

lemma subOne_valid:
  assumes "0 \<le> i" "i < bins h" "0 < histogram h ! nat i"
    and "nat i < length (histogram h)" "nat i < length (entropies h)"
  shows "thrown (subOne fastlog2 i h) = None"
    and "bins (object (subOne fastlog2 i h)) = bins h"
    and "mass (object (subOne fastlog2 i h)) = mass h - 1"
    and "histogram (object (subOne fastlog2 i h)) =
           (histogram h)[nat i := histogram h ! nat i - 1]"
    and "entropies (object (subOne fastlog2 i h)) =
           (entropies h)[nat i :=
              (if histogram h ! nat i - 1 < 1 then 0
               else - real_of_int (histogram h ! nat i - 1)
                      * fastlog2 (real_of_int (histogram h ! nat i - 1)))]"
    and "totalEntropy (object (subOne fastlog2 i h)) =
           totalEntropy h + (- mass h * fastlog2 (mass h))
           - (- (mass h - 1) * fastlog2 (mass h - 1))
           - entropies h ! nat i
           + (if histogram h ! nat i - 1 < 1 then 0
              else - real_of_int (histogram h ! nat i - 1)
                     * fastlog2 (real_of_int (histogram h ! nat i - 1)))"
    and "fastlog2_args (subOne fastlog2 i h) =
           [mass h, mass h - 1] @
           (if histogram h ! nat i - 1 < 1 then []
            else [real_of_int (histogram h ! nat i - 1)])"
  using assms
  by (simp_all add: subOne_def at_bin_def BOOST_ASSERT_MSG_def ENTROPY_def Let_def algebra_simps)

lemma thrown_addOne: "(thrown (addOne fastlog2 i h) = None) = (0 \<le> i \<and> i < bins h)"
  by (auto simp: addOne_def BOOST_ASSERT_MSG_def ENTROPY_def Let_def split_def)

lemma thrown_subOne:
  "(thrown (subOne fastlog2 i h) = None) = (0 \<le> i \<and> i < bins h \<and> 0 < histogram h ! nat i)"
  by (auto simp: subOne_def at_bin_def BOOST_ASSERT_MSG_def ENTROPY_def Let_def split_def)

section \<open>EfficientEntropyHistogram: the invariants\<close>

subsection \<open>Sums over an array with one cell changed\<close>

lemma sum_list_update_group:
  fixes xs :: "'a::ab_group_add list"
  shows "k < length xs \<Longrightarrow> sum_list (xs[k := v]) = sum_list xs - xs ! k + v"
proof (induction xs arbitrary: k)
  case Nil
  then show ?case by simp
next
  case (Cons x xs)
  then show ?case by (cases k) simp_all
qed

lemma sum_list_nonneg_int:
  "list_all (\<lambda>c. 0 \<le> c) (cs :: int list) \<Longrightarrow> 0 \<le> sum_list cs"
  by (induction cs) simp_all

lemma nth_le_sum_list_int:
  "\<lbrakk>list_all (\<lambda>c. 0 \<le> c) (cs :: int list); k < length cs\<rbrakk> \<Longrightarrow> cs ! k \<le> sum_list cs"
proof (induction cs arbitrary: k)
  case Nil
  then show ?case by simp
next
  case (Cons c cs)
  then show ?case
    using sum_list_nonneg_int [of cs] by (cases k) (simp_all add: add_increasing)
qed

lemma list_all_update:
  "\<lbrakk>list_all P xs; P v\<rbrakk> \<Longrightarrow> list_all P (xs[k := v])"
  by (auto simp: list_all_iff dest: set_update_subset_insert [THEN subsetD])

lemma ENTROPY_contribution:
  "0 \<le> x \<Longrightarrow> - x * fastlog2 x = contribution fastlog2 x"
  by (simp add: contribution_def)

subsection \<open>addOne and subOne keep the invariant\<close>

text \<open>
  The mass is never negative where the invariant holds, so \<open>- mass * fastlog2 mass\<close> is
  the contribution of the mass also at mass 0, where the product is 0 whatever
  \<open>fastlog2 0\<close> is.
\<close>

lemma hist_inv_zero: "0 \<le> n \<Longrightarrow> hist_inv fastlog2 (zero_histogram n)"
  by (simp add: hist_inv_def well_formed_def cached_def consistent_def zero_histogram_def
        contribution_def list_all_length sum_list_replicate)

lemma hist_inv_default: "hist_inv fastlog2 EfficientEntropyHistogram_default"
  by (simp add: hist_inv_def well_formed_def cached_def consistent_def
        EfficientEntropyHistogram_default_def contribution_def)

lemma hist_inv_addOne:
  assumes inv: "hist_inv fastlog2 h" and i: "0 \<le> i" "i < bins h"
  shows "hist_inv fastlog2 (object (addOne fastlog2 i h))"
proof -
  let ?k = "nat i" and ?h' = "object (addOne fastlog2 i h)"
  let ?c = "histogram h ! ?k"
  let ?f = "\<lambda>c. contribution fastlog2 (real_of_int c)"
  from inv have wf: "well_formed h" and ca: "cached fastlog2 h"
    and co: "consistent fastlog2 (histogram h) (mass h) (totalEntropy h)"
    by (simp_all add: hist_inv_def)
  from wf i have k: "?k < length (histogram h)" "?k < length (entropies h)"
    by (simp_all add: well_formed_def)
  note step = addOne_valid [OF i k, of fastlog2]
  from co have nonneg: "list_all (\<lambda>c. 0 \<le> c) (histogram h)"
    and m: "mass h = real_of_int (sum_list (histogram h))"
    and t: "totalEntropy h = sum_list (map ?f (histogram h)) - contribution fastlog2 (mass h)"
    by (simp_all add: consistent_def)
  from nonneg k have c0: "0 \<le> ?c" by (simp add: list_all_length)
  from nonneg m have m0: "0 \<le> mass h" by (simp add: sum_list_nonneg_int)
  have e_new: "- real_of_int (?c + 1) * fastlog2 (real_of_int (?c + 1)) = ?f (?c + 1)"
    using c0 by (intro ENTROPY_contribution) simp
  have e_old: "entropies h ! ?k = ?f ?c"
    using ca k by (simp add: cached_def)
  have wf': "well_formed ?h'"
    using wf by (simp add: well_formed_def step)
  have ca': "cached fastlog2 ?h'"
    using ca unfolding cached_def step e_new by (simp add: map_update)
  have nonneg': "list_all (\<lambda>c. 0 \<le> c) (histogram ?h')"
    unfolding step using nonneg c0 by (intro list_all_update) simp_all
  have m': "mass ?h' = real_of_int (sum_list (histogram ?h'))"
    unfolding step using k m by (simp add: sum_list_update_group)
  have "sum_list (map ?f (histogram ?h')) = sum_list (map ?f (histogram h)) - ?f ?c + ?f (?c + 1)"
    unfolding step using k by (simp add: map_update sum_list_update_group)
  moreover have "- mass h * fastlog2 (mass h) = contribution fastlog2 (mass h)"
    using m0 by (rule ENTROPY_contribution)
  moreover have "- (mass h + 1) * fastlog2 (mass h + 1) = contribution fastlog2 (mass h + 1)"
    using m0 by (intro ENTROPY_contribution) simp
  ultimately have t': "totalEntropy ?h' =
      sum_list (map ?f (histogram ?h')) - contribution fastlog2 (mass ?h')"
    unfolding step(6) step(3) e_new e_old t by simp
  from wf' ca' nonneg' m' t' show ?thesis
    by (simp add: hist_inv_def consistent_def)
qed

lemma hist_inv_subOne:
  assumes inv: "hist_inv fastlog2 h" and i: "0 \<le> i" "i < bins h"
    and pos: "0 < histogram h ! nat i"
  shows "hist_inv fastlog2 (object (subOne fastlog2 i h))"
proof -
  let ?k = "nat i" and ?h' = "object (subOne fastlog2 i h)"
  let ?c = "histogram h ! ?k"
  let ?f = "\<lambda>c. contribution fastlog2 (real_of_int c)"
  from inv have wf: "well_formed h" and ca: "cached fastlog2 h"
    and co: "consistent fastlog2 (histogram h) (mass h) (totalEntropy h)"
    by (simp_all add: hist_inv_def)
  from wf i have k: "?k < length (histogram h)" "?k < length (entropies h)"
    by (simp_all add: well_formed_def)
  note step = subOne_valid [OF i pos k, of fastlog2]
  from co have nonneg: "list_all (\<lambda>c. 0 \<le> c) (histogram h)"
    and m: "mass h = real_of_int (sum_list (histogram h))"
    and t: "totalEntropy h = sum_list (map ?f (histogram h)) - contribution fastlog2 (mass h)"
    by (simp_all add: consistent_def)
  from nonneg k(1) have "?c \<le> sum_list (histogram h)" by (rule nth_le_sum_list_int)
  with pos m have m1: "1 \<le> mass h" by simp
  have e_new: "(if ?c - 1 < 1 then 0
                else - real_of_int (?c - 1) * fastlog2 (real_of_int (?c - 1))) = ?f (?c - 1)"
    using pos by (simp add: contribution_def)
  have e_old: "entropies h ! ?k = ?f ?c"
    using ca k by (simp add: cached_def)
  have wf': "well_formed ?h'"
    using wf by (simp add: well_formed_def step)
  have ca': "cached fastlog2 ?h'"
    using ca unfolding cached_def step e_new by (simp add: map_update)
  have nonneg': "list_all (\<lambda>c. 0 \<le> c) (histogram ?h')"
    unfolding step using nonneg pos by (intro list_all_update) simp_all
  have m': "mass ?h' = real_of_int (sum_list (histogram ?h'))"
    unfolding step using k m by (simp add: sum_list_update_group)
  have "sum_list (map ?f (histogram ?h')) = sum_list (map ?f (histogram h)) - ?f ?c + ?f (?c - 1)"
    unfolding step using k by (simp add: map_update sum_list_update_group)
  moreover have "- mass h * fastlog2 (mass h) = contribution fastlog2 (mass h)"
    using m1 by (intro ENTROPY_contribution) simp
  moreover have "- (mass h - 1) * fastlog2 (mass h - 1) = contribution fastlog2 (mass h - 1)"
    using m1 by (intro ENTROPY_contribution) simp
  ultimately have t': "totalEntropy ?h' =
      sum_list (map ?f (histogram ?h')) - contribution fastlog2 (mass ?h')"
    unfolding step(6) step(3) e_new e_old t by simp
  from wf' ca' nonneg' m' t' show ?thesis
    by (simp add: hist_inv_def consistent_def)
qed

subsection \<open>resize and reset keep the weak invariant\<close>

lemma hist_weak_inv_positive:
  "\<lbrakk>hist_weak_inv fastlog2 h; 0 < bins h\<rbrakk> \<Longrightarrow> hist_inv fastlog2 h"
  by (auto simp: hist_weak_inv_def)

lemma hist_weak_inv_well_formed:
  "hist_weak_inv fastlog2 h \<Longrightarrow> well_formed h"
  by (auto simp: hist_weak_inv_def hist_inv_def well_formed_def)

lemma hist_weak_inv_resize:
  assumes "hist_weak_inv fastlog2 h" and "thrown (resize ui uf n h) = None"
  shows "hist_weak_inv fastlog2 (object (resize ui uf n h))"
proof -
  consider "n < 0" | "n = 0" | "0 < n" by linarith
  then show ?thesis
  proof cases
    case 1
    with assms(2) show ?thesis by (simp add: resize_negative)
  next
    case 2
    from assms(1) have "\<exists>cs. consistent fastlog2 cs (mass h) (totalEntropy h)"
      by (auto simp: hist_weak_inv_def hist_inv_def)
    moreover from assms(1) have "bins h = 0 \<Longrightarrow> histogram h = [] \<and> entropies h = []"
      by (auto simp: hist_weak_inv_def hist_inv_def well_formed_def)
    ultimately show ?thesis
      unfolding 2 resize_zero by (auto simp: hist_weak_inv_def)
  next
    case 3
    then show ?thesis
      by (simp add: resize_positive hist_weak_inv_def hist_inv_zero)
  qed
qed

lemma hist_inv_reset:
  assumes "hist_weak_inv fastlog2 h"
  shows "hist_inv fastlog2 (reset h)"
proof -
  from assms have "well_formed h" by (rule hist_weak_inv_well_formed)
  then show ?thesis
    by (simp add: well_formed_def reset_closed hist_inv_zero)
qed

lemma hist_weak_inv_perform:
  assumes "hist_weak_inv fastlog2 h" and "thrown (perform fastlog2 ui uf c h) = None"
  shows "hist_weak_inv fastlog2 (object (perform fastlog2 ui uf c h))"
proof (cases c)
  case (AddOne i)
  with assms(2) have i: "0 \<le> i" "i < bins h" by (simp_all add: thrown_addOne)
  with assms(1) have "hist_inv fastlog2 h" by (intro hist_weak_inv_positive) simp_all
  with i AddOne show ?thesis by (simp add: hist_weak_inv_def hist_inv_addOne)
next
  case (SubOne i)
  with assms(2) have i: "0 \<le> i" "i < bins h" "0 < histogram h ! nat i"
    by (simp_all add: thrown_subOne)
  with assms(1) have "hist_inv fastlog2 h" by (intro hist_weak_inv_positive) simp_all
  with i SubOne show ?thesis by (simp add: hist_weak_inv_def hist_inv_subOne)
next
  case (Resize n)
  with assms show ?thesis by (simp add: hist_weak_inv_resize)
next
  case Reset
  with assms show ?thesis by (simp add: hist_weak_inv_def hist_inv_reset)
qed

subsection \<open>Runs\<close>

lemma hist_weak_inv_run:
  "\<lbrakk>hist_weak_inv fastlog2 h; run fastlog2 ui uf cs h = Inr h'\<rbrakk>
   \<Longrightarrow> hist_weak_inv fastlog2 h'"
proof (induction cs arbitrary: h)
  case Nil
  then show ?case by simp
next
  case (Cons c cs)
  from Cons.prems(2) have ok: "thrown (perform fastlog2 ui uf c h) = None"
    and rest: "run fastlog2 ui uf cs (object (perform fastlog2 ui uf c h)) = Inr h'"
    by (simp_all split: option.splits)
  from Cons.prems(1) ok have "hist_weak_inv fastlog2 (object (perform fastlog2 ui uf c h))"
    by (rule hist_weak_inv_perform)
  then show ?case using rest by (rule Cons.IH)
qed

lemma hist_inv_run_add_sub:
  "\<lbrakk>hist_inv fastlog2 h; list_all add_or_sub cs; run fastlog2 ui uf cs h = Inr h'\<rbrakk>
   \<Longrightarrow> hist_inv fastlog2 h' \<and> bins h' = bins h"
proof (induction cs arbitrary: h)
  case Nil
  then show ?case by simp
next
  case (Cons c cs)
  let ?h1 = "object (perform fastlog2 ui uf c h)"
  from Cons.prems(3) have ok: "thrown (perform fastlog2 ui uf c h) = None"
    and rest: "run fastlog2 ui uf cs ?h1 = Inr h'"
    by (simp_all split: option.splits)
  from Cons.prems(2) have c: "add_or_sub c" and cs: "list_all add_or_sub cs" by simp_all
  have "hist_inv fastlog2 ?h1 \<and> bins ?h1 = bins h"
  proof (cases c)
    case (AddOne i)
    with ok have i: "0 \<le> i" "i < bins h" by (simp_all add: thrown_addOne)
    from Cons.prems(1) have "well_formed h" by (simp add: hist_inv_def)
    with i have "nat i < length (histogram h)" "nat i < length (entropies h)"
      by (simp_all add: well_formed_def)
    with i AddOne Cons.prems(1) show ?thesis
      by (simp add: hist_inv_addOne addOne_valid(2))
  next
    case (SubOne i)
    with ok have i: "0 \<le> i" "i < bins h" "0 < histogram h ! nat i"
      by (simp_all add: thrown_subOne)
    from Cons.prems(1) have "well_formed h" by (simp add: hist_inv_def)
    with i have "nat i < length (histogram h)" "nat i < length (entropies h)"
      by (simp_all add: well_formed_def)
    with i SubOne Cons.prems(1) show ?thesis
      by (simp add: hist_inv_subOne subOne_valid(2))
  next
    case (Resize n)
    with c show ?thesis by simp
  next
    case Reset
    with c show ?thesis by simp
  qed
  with Cons.IH [OF _ cs rest] show ?case by simp
qed

subsection \<open>Construction\<close>

text \<open>
  The constructor fails for a negative number of bins and otherwise returns the zero
  histogram; for 0 bins resize does not call reset, and the fields are those the
  constructor's initialiser list gave.
\<close>

lemma constructor_bins:
  "EfficientEntropyHistogram_bins ui uf b =
     (if b < 0 then Inl InvalidArgument else Inr (zero_histogram b))"
proof -
  consider "b < 0" | "b = 0" | "0 < b" by linarith
  then show ?thesis
  proof cases
    case 1
    then show ?thesis by (simp add: EfficientEntropyHistogram_bins_def resize_negative)
  next
    case 2
    then show ?thesis
      by (simp add: EfficientEntropyHistogram_bins_def resize_zero
            EfficientEntropyHistogram_default_def zero_histogram_def)
  next
    case 3
    then show ?thesis by (simp add: EfficientEntropyHistogram_bins_def resize_positive)
  qed
qed

lemma construct_and_run_Inr:
  "construct_and_run fastlog2 ui uf b cs = Inr h
   \<Longrightarrow> 0 \<le> b \<and> run fastlog2 ui uf cs (zero_histogram b) = Inr h"
  by (simp add: construct_and_run_def constructor_bins split: if_splits)

lemma reachable_weak_inv:
  assumes "construct_and_run fastlog2 ui uf b cs = Inr h"
  shows "hist_weak_inv fastlog2 h"
proof -
  from assms have b: "0 \<le> b" and r: "run fastlog2 ui uf cs (zero_histogram b) = Inr h"
    by (auto dest: construct_and_run_Inr)
  from b have "hist_weak_inv fastlog2 (zero_histogram b)"
    by (simp add: hist_weak_inv_def hist_inv_zero)
  then show ?thesis using r by (rule hist_weak_inv_run)
qed

lemma reachable_add_sub_inv:
  assumes "construct_and_run fastlog2 ui uf b cs = Inr h" and "list_all add_or_sub cs"
  shows "hist_inv fastlog2 h \<and> bins h = b"
proof -
  from assms(1) have b: "0 \<le> b" and r: "run fastlog2 ui uf cs (zero_histogram b) = Inr h"
    by (auto dest: construct_and_run_Inr)
  from b have "hist_inv fastlog2 (zero_histogram b)" by (rule hist_inv_zero)
  from hist_inv_run_add_sub [OF this assms(2) r] show ?thesis
    by (simp add: zero_histogram_def)
qed

section \<open>EfficientEntropyHistogram in binary32: what addOne and subOne do\<close>

text \<open>
  A call of addOne or subOne that passes its assertions, with the fields after the
  call written out. The arithmetic is left as it stands.
\<close>

lemma addOne32_step:
  assumes "0 \<le> i" "i < bins32 h"
  shows "addOne32 fastlog2 i h =
     (None,
      \<lparr>bins32 = bins32 h,
       histogram32 = (histogram32 h)[nat i := histogram32 h ! nat i + 1],
       mass32 = f32_add (mass32 h) (f32_of_int 1),
       entropies32 = (entropies32 h)[nat i :=
          ENTROPY32_int fastlog2 ((histogram32 h)[nat i := histogram32 h ! nat i + 1] ! nat i)],
       totalEntropy32 =
          f32_add
            (f32_sub
               (f32_sub
                  (f32_add (totalEntropy32 h) (ENTROPY32 fastlog2 (mass32 h)))
                  (ENTROPY32 fastlog2 (f32_add (mass32 h) (f32_of_int 1))))
               (entropies32 h ! nat i))
            ((entropies32 h)[nat i :=
                ENTROPY32_int fastlog2 ((histogram32 h)[nat i := histogram32 h ! nat i + 1] ! nat i)]
             ! nat i)\<rparr>)"
  using assms by (cases h) (simp add: addOne32_def BOOST_ASSERT_MSG_def Let_def)

lemma subOne32_step:
  assumes "0 \<le> i" "i < bins32 h" "0 < histogram32 h ! nat i"
  shows "subOne32 fastlog2 i h =
     (None,
      \<lparr>bins32 = bins32 h,
       histogram32 = (histogram32 h)[nat i := histogram32 h ! nat i - 1],
       mass32 = f32_sub (mass32 h) (f32_of_int 1),
       entropies32 = (entropies32 h)[nat i :=
          (if (histogram32 h)[nat i := histogram32 h ! nat i - 1] ! nat i < 1 then f32_of_int 0
           else ENTROPY32_int fastlog2
                  ((histogram32 h)[nat i := histogram32 h ! nat i - 1] ! nat i))],
       totalEntropy32 =
          (if (histogram32 h)[nat i := histogram32 h ! nat i - 1] ! nat i < 1
           then f32_sub
                  (f32_sub
                     (f32_add (totalEntropy32 h) (ENTROPY32 fastlog2 (mass32 h)))
                     (ENTROPY32 fastlog2 (f32_sub (mass32 h) (f32_of_int 1))))
                  (entropies32 h ! nat i)
           else f32_add
                  (f32_sub
                     (f32_sub
                        (f32_add (totalEntropy32 h) (ENTROPY32 fastlog2 (mass32 h)))
                        (ENTROPY32 fastlog2 (f32_sub (mass32 h) (f32_of_int 1))))
                     (entropies32 h ! nat i))
                  ((entropies32 h)[nat i :=
                      ENTROPY32_int fastlog2
                        ((histogram32 h)[nat i := histogram32 h ! nat i - 1] ! nat i)]
                   ! nat i))\<rparr>)"
  using assms
  by (cases h) (simp add: subOne32_def at32_def BOOST_ASSERT_MSG_def Let_def)

text \<open>
  For evaluating the arithmetic and the constructor on concrete values.
\<close>

lemmas arith32_defs =
  ENTROPY32_def ENTROPY32_int_def f32_sub_def f32_of_int_def log2_rounded_def
  round32_def round_half_even_def pow2_def exponent32_def Let_def eval_nat_numeral

lemmas constructor32_defs =
  EfficientEntropyHistogram32_bins_def resize32_def reset32_def reset_loop32.simps
  BOOST_ASSERT_MSG_def f32_of_int_def
  round32_def round_half_even_def pow2_def exponent32_def Let_def eval_nat_numeral

lemma constructor32_bins_3:
  "EfficientEntropyHistogram32_bins ui uf 3 =
     Inr \<lparr>bins32 = 3, histogram32 = [0, 0, 0], mass32 = Finite 0,
          entropies32 = [Finite 0, Finite 0, Finite 0], totalEntropy32 = Finite 0\<rparr>"
  by (simp add: constructor32_defs)

section \<open>EfficientEntropyHistogram: the properties\<close>

text \<open>
  For evaluating the methods on concrete objects: the definitions as they stand.
\<close>

lemmas histogram_defs =
  construct_and_run_def EfficientEntropyHistogram_bins_def EfficientEntropyHistogram_default_def
  resize_def reset_def reset_loop.simps
  addOne_def subOne_def at_bin_def BOOST_ASSERT_MSG_def ENTROPY_def Let_def
  thrown_def object_def fastlog2_args_def getSize_def getMass_def getEntropy_def
  eval_nat_numeral

subsection \<open>The invariants after each call\<close>

lemma run_append:
  "run fastlog2 ui uf (cs @ ds) h = Inr h'
   \<Longrightarrow> \<exists>h1. run fastlog2 ui uf cs h = Inr h1 \<and> run fastlog2 ui uf ds h1 = Inr h'"
  by (induction cs arbitrary: h) (auto split: option.splits)

lemma construct_and_run_append:
  assumes "construct_and_run fastlog2 ui uf b (cs @ ds) = Inr h'"
  shows "\<exists>h. construct_and_run fastlog2 ui uf b cs = Inr h"
proof -
  from assms have b: "0 \<le> b" and "run fastlog2 ui uf (cs @ ds) (zero_histogram b) = Inr h'"
    by (auto dest: construct_and_run_Inr)
  then obtain h where "run fastlog2 ui uf cs (zero_histogram b) = Inr h"
    by (auto dest: run_append)
  with b show ?thesis by (simp add: construct_and_run_def constructor_bins)
qed

text \<open>
  On an object with well-formed arrays, at(i) succeeds on every index from 0 to
  \<open>bins - 1\<close> and returns the cells of \<open>histogram\<close> in order.
\<close>

lemma at_bin_all:
  assumes "well_formed h"
  shows "map (at_bin h) [0..bins h - 1] = map Inr (histogram h)"
proof (rule nth_equalityI)
  from assms show len: "length (map (at_bin h) [0..bins h - 1]) = length (map Inr (histogram h))"
    by (simp add: well_formed_def)
  fix k assume "k < length (map (at_bin h) [0..bins h - 1])"
  with assms have k: "int k < bins h" by (simp add: well_formed_def)
  then have "[0..bins h - 1] ! k = int k" by (simp add: nth_upto)
  with k assms show "map (at_bin h) [0..bins h - 1] ! k = map Inr (histogram h) ! k"
    by (simp add: at_bin_def BOOST_ASSERT_MSG_def well_formed_def)
qed

text \<open>
  Claim C1. Take a histogram freshly constructed with \<open>b \<ge> 0\<close> bins and a sequence of
  addOne and subOne calls none of which fails: by \<open>thrown_addOne\<close> and \<open>thrown_subOne\<close>
  these are the calls whose index is in range, with a positive count in the bin for
  subOne. After each call, that is after every
  prefix \<open>cs\<close> of the sequence \<open>cs @ ds\<close>, the object \<open>h\<close> has \<open>b\<close> bins, at(i) returns the
  cells of the histogram, getMass() is the sum of the counts, and getEntropy() is the
  sum of the contributions of the counts minus the contribution of the mass, where
  \<open>contribution n = - n * fastlog2 n\<close> for \<open>n > 0\<close> and \<open>contribution 0 = 0\<close>. The statement is in
  exact arithmetic and holds for every function \<open>fastlog2\<close>.
\<close>

theorem invariant_after_each_call:
  assumes "0 \<le> b"
    and "list_all add_or_sub (cs @ ds)"
    and "construct_and_run fastlog2 ui uf b (cs @ ds) = Inr h'"
  shows "\<exists>h. construct_and_run fastlog2 ui uf b cs = Inr h
           \<and> getSize h = b
           \<and> map (at_bin h) [0..b - 1] = map Inr (histogram h)
           \<and> getMass h = real_of_int (sum_list (histogram h))
           \<and> getEntropy h =
               sum_list (map (\<lambda>c. contribution fastlog2 (real_of_int c)) (histogram h))
               - contribution fastlog2 (getMass h)"
proof -
  from assms(3) obtain h where h: "construct_and_run fastlog2 ui uf b cs = Inr h"
    by (auto dest: construct_and_run_append)
  from assms(2) have "list_all add_or_sub cs" by simp
  with h have inv: "hist_inv fastlog2 h" and b: "bins h = b"
    by (auto dest: reachable_add_sub_inv)
  from inv have "well_formed h" by (simp add: hist_inv_def)
  then have "map (at_bin h) [0..bins h - 1] = map Inr (histogram h)" by (rule at_bin_all)
  with inv b h show ?thesis
    by (auto simp: hist_inv_def consistent_def getSize_def getMass_def getEntropy_def)
qed

text \<open>
  Two bins, \<open>fastlog2 x = x\<close>: addOne(0), addOne(1), then subOne(0). After the first two
  calls the counts are 1 and 1, the mass is 2 and the total entropy is 2.
\<close>

theorem invariant_after_each_call_witness:
  "(0::int) \<le> 2
   \<and> list_all add_or_sub ([AddOne 0, AddOne 1] @ [SubOne 0])
   \<and> construct_and_run (\<lambda>x. x) (\<lambda>_. 5) (\<lambda>_. 7) 2 ([AddOne 0, AddOne 1] @ [SubOne 0]) =
       Inr \<lparr>bins = 2, histogram = [0, 1], mass = 1, entropies = [0, - 1], totalEntropy = 0\<rparr>
   \<and> (\<exists>h. construct_and_run (\<lambda>x. x) (\<lambda>_. 5) (\<lambda>_. 7) 2 [AddOne 0, AddOne 1] = Inr h
          \<and> getSize h = 2
          \<and> map (at_bin h) [0..2 - 1] = map Inr (histogram h)
          \<and> getMass h = real_of_int (sum_list (histogram h))
          \<and> getEntropy h =
              sum_list (map (\<lambda>c. contribution (\<lambda>x. x) (real_of_int c)) (histogram h))
              - contribution (\<lambda>x. x) (getMass h))"
proof -
  have run: "construct_and_run (\<lambda>x. x) (\<lambda>_. 5) (\<lambda>_. 7) 2 ([AddOne 0, AddOne 1] @ [SubOne 0]) =
       Inr \<lparr>bins = 2, histogram = [0, 1], mass = 1, entropies = [0, - 1], totalEntropy = 0\<rparr>"
    by (simp add: histogram_defs)
  have calls: "list_all add_or_sub ([AddOne 0, AddOne 1] @ [SubOne 0])" by simp
  from invariant_after_each_call [OF _ calls run] run calls show ?thesis by simp
qed

subsection \<open>resize\<close>

text \<open>
  Claim C2. The claim says that after resize(newBins) the mass and the total entropy are
  zero for every \<open>newBins \<ge> 0\<close>, also for \<open>newBins = 0\<close>. The code calls reset() only inside
  \<open>if (newBins > 0)\<close>: resize(0) sets \<open>bins\<close> to 0, releases the arrays and returns with
  \<open>mass\<close> and \<open>totalEntropy\<close> as they were. With the exact base-2 logarithm, a histogram
  of two bins after addOne(0), addOne(1) and resize(0) has no bins, mass 2 and total
  entropy 2.
\<close>

theorem resize_zero_keeps_scalars:
  "thrown (resize ui uf 0 h) = None
   \<and> getSize (object (resize ui uf 0 h)) = 0
   \<and> getMass (object (resize ui uf 0 h)) = getMass h
   \<and> getEntropy (object (resize ui uf 0 h)) = getEntropy h
   \<and> construct_and_run (log 2) ui uf 2 [AddOne 0, AddOne 1, Resize 0] =
       Inr \<lparr>bins = 0, histogram = [], mass = 2, entropies = [], totalEntropy = 2\<rparr>"
  by (simp add: histogram_defs)

text \<open>
  For \<open>newBins > 0\<close> resize does what the claim says, whatever the object held before and
  whatever the fresh storage contains, also when \<open>newBins\<close> is the current number of bins.
\<close>

theorem resize_positive_clears:
  "0 < newBins \<Longrightarrow>
     resize ui uf newBins h =
       (None,
        \<lparr>bins = newBins, histogram = replicate (nat newBins) 0, mass = 0,
         entropies = replicate (nat newBins) 0, totalEntropy = 0\<rparr>, [])"
  by (simp add: resize_positive zero_histogram_def)

theorem resize_positive_clears_witness:
  "(0::int) < 2
   \<and> resize (\<lambda>_. 5) (\<lambda>_. 7) 2
        \<lparr>bins = 2, histogram = [1, 1], mass = 2, entropies = [- 1, - 1], totalEntropy = 2\<rparr> =
       (None, \<lparr>bins = 2, histogram = [0, 0], mass = 0, entropies = [0, 0], totalEntropy = 0\<rparr>, [])"
  using resize_positive_clears [of 2 "\<lambda>_. 5" "\<lambda>_. 7"
      "\<lparr>bins = 2, histogram = [1, 1], mass = 2, entropies = [- 1, - 1], totalEntropy = 2\<rparr>"]
  by (simp add: eval_nat_numeral)

subsection \<open>Where fastlog2 is evaluated\<close>

text \<open>
  Claim C3. The claim says that no operation evaluates \<open>fastlog2\<close> at a non-positive
  argument, in particular not addOne on mass 0 and not subOne that brings the mass to 0.
  The code guards only the bin's entry in subOne (\<open>if (histogram[i] < 1)\<close>); the mass
  terms are \<open>ENTROPY(mass)\<close> with no guard. On a fresh histogram of one bin, addOne(0)
  evaluates \<open>fastlog2\<close> at 0, 1 and 1, and the subOne(0) that follows evaluates it at 1
  and 0.
\<close>

theorem mass_terms_evaluate_fastlog2_at_zero:
  "EfficientEntropyHistogram_bins ui uf 1 =
     Inr \<lparr>bins = 1, histogram = [0], mass = 0, entropies = [0], totalEntropy = 0\<rparr>
   \<and> addOne fastlog2 0
       \<lparr>bins = 1, histogram = [0], mass = 0, entropies = [0], totalEntropy = 0\<rparr> =
     (None,
      \<lparr>bins = 1, histogram = [1], mass = 1, entropies = [- fastlog2 1], totalEntropy = 0\<rparr>,
      [0, 1, 1])
   \<and> subOne fastlog2 0
       \<lparr>bins = 1, histogram = [1], mass = 1, entropies = [- fastlog2 1], totalEntropy = 0\<rparr> =
     (None,
      \<lparr>bins = 1, histogram = [0], mass = 0, entropies = [0], totalEntropy = 0\<rparr>,
      [1, 0])"
  by (simp add: histogram_defs)

text \<open>
  What does hold in every reachable state of the embedding in exact arithmetic: a call
  that succeeds never evaluates
  \<open>fastlog2\<close> at a negative argument, and the arguments after the two mass terms, which
  are the bin's, are at least 1. So 0, as a mass, is the only non-positive argument
  that occurs.
\<close>

theorem fastlog2_arguments:
  assumes "construct_and_run fastlog2 ui uf b cs = Inr h"
    and "thrown (perform fastlog2 ui uf c h) = None"
  shows "list_all (\<lambda>x. 0 \<le> x) (fastlog2_args (perform fastlog2 ui uf c h))
       \<and> list_all (\<lambda>x. 1 \<le> x) (drop 2 (fastlog2_args (perform fastlog2 ui uf c h)))"
proof (cases c)
  case (AddOne i)
  with assms(2) have i: "0 \<le> i" "i < bins h" by (simp_all add: thrown_addOne)
  from assms(1) have "hist_weak_inv fastlog2 h" by (rule reachable_weak_inv)
  with i have inv: "hist_inv fastlog2 h" by (intro hist_weak_inv_positive) simp_all
  then have wf: "well_formed h" and nonneg: "list_all (\<lambda>c. 0 \<le> c) (histogram h)"
    and m: "mass h = real_of_int (sum_list (histogram h))"
    by (simp_all add: hist_inv_def consistent_def)
  from wf i have k: "nat i < length (histogram h)" "nat i < length (entropies h)"
    by (simp_all add: well_formed_def)
  from nonneg k have c0: "0 \<le> histogram h ! nat i" by (simp add: list_all_length)
  from nonneg m have m0: "0 \<le> mass h" by (simp add: sum_list_nonneg_int)
  from c0 m0 AddOne show ?thesis by (simp add: addOne_valid(7) [OF i k])
next
  case (SubOne i)
  with assms(2) have i: "0 \<le> i" "i < bins h" and pos: "0 < histogram h ! nat i"
    by (simp_all add: thrown_subOne)
  from assms(1) have "hist_weak_inv fastlog2 h" by (rule reachable_weak_inv)
  with i have inv: "hist_inv fastlog2 h" by (intro hist_weak_inv_positive) simp_all
  then have wf: "well_formed h" and nonneg: "list_all (\<lambda>c. 0 \<le> c) (histogram h)"
    and m: "mass h = real_of_int (sum_list (histogram h))"
    by (simp_all add: hist_inv_def consistent_def)
  from wf i have k: "nat i < length (histogram h)" "nat i < length (entropies h)"
    by (simp_all add: well_formed_def)
  from nonneg k(1) have "histogram h ! nat i \<le> sum_list (histogram h)"
    by (rule nth_le_sum_list_int)
  with pos m have m1: "1 \<le> mass h" by simp
  from m1 pos SubOne show ?thesis by (simp add: subOne_valid(7) [OF i pos k])
next
  case (Resize n)
  then show ?thesis by (simp add: resize_def BOOST_ASSERT_MSG_def Let_def)
next
  case Reset
  then show ?thesis by simp
qed

theorem fastlog2_arguments_witness:
  "construct_and_run (\<lambda>x. x) (\<lambda>_. 5) (\<lambda>_. 7) 2 [AddOne 0, AddOne 1] =
     Inr \<lparr>bins = 2, histogram = [1, 1], mass = 2, entropies = [- 1, - 1], totalEntropy = 2\<rparr>
   \<and> thrown (perform (\<lambda>x. x) (\<lambda>_. 5) (\<lambda>_. 7) (SubOne 0)
        \<lparr>bins = 2, histogram = [1, 1], mass = 2, entropies = [- 1, - 1], totalEntropy = 2\<rparr>) = None
   \<and> fastlog2_args (perform (\<lambda>x. x) (\<lambda>_. 5) (\<lambda>_. 7) (SubOne 0)
        \<lparr>bins = 2, histogram = [1, 1], mass = 2, entropies = [- 1, - 1], totalEntropy = 2\<rparr>) = [2, 1]
   \<and> list_all (\<lambda>x. 0 \<le> x) (fastlog2_args (perform (\<lambda>x. x) (\<lambda>_. 5) (\<lambda>_. 7) (SubOne 0)
        \<lparr>bins = 2, histogram = [1, 1], mass = 2, entropies = [- 1, - 1], totalEntropy = 2\<rparr>))"
proof -
  let ?h = "\<lparr>bins = 2, histogram = [1, 1], mass = 2, entropies = [- 1, - 1], totalEntropy = 2\<rparr>"
  have r: "construct_and_run (\<lambda>x. x) (\<lambda>_. 5) (\<lambda>_. 7) 2 [AddOne 0, AddOne 1] = Inr ?h"
    by (simp add: histogram_defs)
  have ok: "thrown (perform (\<lambda>x. x) (\<lambda>_. 5) (\<lambda>_. 7) (SubOne 0) ?h) = None"
    by (simp add: histogram_defs)
  have args: "fastlog2_args (perform (\<lambda>x. x) (\<lambda>_. 5) (\<lambda>_. 7) (SubOne 0) ?h) = [2, 1]"
    by (simp add: histogram_defs)
  from fastlog2_arguments [OF r ok]
  have "list_all (\<lambda>x. 0 \<le> x) (fastlog2_args (perform (\<lambda>x. x) (\<lambda>_. 5) (\<lambda>_. 7) (SubOne 0) ?h))"
    by blast
  with r ok args show ?thesis by (intro conjI)
qed

subsection \<open>addOne followed by subOne\<close>

text \<open>
  Claim C4, as amended. In exact arithmetic, that is with the float fields read as
  reals: in every state reachable from a constructed histogram by calls of addOne,
  subOne, resize and reset, and for every valid bin index \<open>i\<close>, addOne(i) followed by
  subOne(i) both succeed and give back the very same object; in particular at(i),
  getMass() and getEntropy() have exactly their values from before the addOne. This
  holds for every function \<open>fastlog2\<close>: each term added is subtracted again, so the
  equality does not depend on how well \<open>fastlog2\<close> approximates the logarithm.
\<close>

theorem add_then_sub_restores:
  assumes "construct_and_run fastlog2 ui uf b cs = Inr h"
    and "0 \<le> i" and "i < getSize h"
  shows "thrown (addOne fastlog2 i h) = None
       \<and> thrown (subOne fastlog2 i (object (addOne fastlog2 i h))) = None
       \<and> object (subOne fastlog2 i (object (addOne fastlog2 i h))) = h
       \<and> at_bin (object (subOne fastlog2 i (object (addOne fastlog2 i h)))) i = at_bin h i
       \<and> getMass (object (subOne fastlog2 i (object (addOne fastlog2 i h)))) = getMass h
       \<and> getEntropy (object (subOne fastlog2 i (object (addOne fastlog2 i h)))) = getEntropy h"
proof -
  let ?k = "nat i"
  let ?h1 = "object (addOne fastlog2 i h)"
  let ?h2 = "object (subOne fastlog2 i ?h1)"
  let ?c = "histogram h ! ?k"
  from assms have i: "0 \<le> i" "i < bins h" by (simp_all add: getSize_def)
  from assms(1) have "hist_weak_inv fastlog2 h" by (rule reachable_weak_inv)
  with i have inv: "hist_inv fastlog2 h" by (intro hist_weak_inv_positive) simp_all
  then have wf: "well_formed h" and ca: "cached fastlog2 h"
    and nonneg: "list_all (\<lambda>c. 0 \<le> c) (histogram h)"
    by (simp_all add: hist_inv_def consistent_def)
  from wf i have k: "?k < length (histogram h)" "?k < length (entropies h)"
    by (simp_all add: well_formed_def)
  from nonneg k have c0: "0 \<le> ?c" by (simp add: list_all_length)
  from ca k have e_old: "entropies h ! ?k = contribution fastlog2 (real_of_int ?c)"
    by (simp add: cached_def)
  note add = addOne_valid [OF i k, of fastlog2]
  have i1: "0 \<le> i" "i < bins ?h1" using i by (simp_all add: add)
  have k1: "?k < length (histogram ?h1)" "?k < length (entropies ?h1)"
    using k by (simp_all add: add)
  have pos1: "0 < histogram ?h1 ! ?k" using c0 k by (simp add: add)
  note sub = subOne_valid [OF i1 pos1 k1, of fastlog2]
  have c1: "histogram ?h1 ! ?k = ?c + 1" using k by (simp add: add)
  have e1: "entropies ?h1 ! ?k = - real_of_int (?c + 1) * fastlog2 (real_of_int (?c + 1))"
    using k by (simp add: add)
  have cache_back: "(if ?c + 1 - 1 < 1 then 0
       else - real_of_int (?c + 1 - 1) * fastlog2 (real_of_int (?c + 1 - 1))) = entropies h ! ?k"
    using c0 by (simp add: e_old contribution_def)
  have f_bins: "bins ?h2 = bins h" by (simp add: sub add)
  have f_mass: "mass ?h2 = mass h" by (simp add: sub add)
  have f_hist: "histogram ?h2 = histogram h"
    unfolding sub(4) c1 unfolding add(4) by simp
  have f_entr: "entropies ?h2 = entropies h"
    unfolding sub(5) c1 cache_back unfolding add(5) by simp
  have f_total: "totalEntropy ?h2 = totalEntropy h"
    unfolding sub(6) c1 e1 cache_back unfolding add(6) add(3) by simp
  have same: "?h2 = h"
    using f_bins f_mass f_hist f_entr f_total by (intro EfficientEntropyHistogram.equality) simp_all
  have "thrown (addOne fastlog2 i h) = None" by (rule add(1))
  moreover have "thrown (subOne fastlog2 i ?h1) = None" by (rule sub(1))
  ultimately show ?thesis using same by (simp add: getMass_def getEntropy_def)
qed

text \<open>
  Two bins with counts 1 and 1, \<open>fastlog2 x = x\<close>: addOne(1) gives counts 1 and 2, mass 3
  and total entropy 4; subOne(1) gives the first object back.
\<close>

theorem add_then_sub_restores_witness:
  "construct_and_run (\<lambda>x. x) (\<lambda>_. 5) (\<lambda>_. 7) 2 [AddOne 0, AddOne 1] =
     Inr \<lparr>bins = 2, histogram = [1, 1], mass = 2, entropies = [- 1, - 1], totalEntropy = 2\<rparr>
   \<and> (0::int) \<le> 1
   \<and> 1 < getSize \<lparr>bins = 2, histogram = [1, 1], mass = 2, entropies = [- 1, - 1], totalEntropy = 2\<rparr>
   \<and> object (addOne (\<lambda>x. x) 1
        \<lparr>bins = 2, histogram = [1, 1], mass = 2, entropies = [- 1, - 1], totalEntropy = 2\<rparr>) =
       \<lparr>bins = 2, histogram = [1, 2], mass = 3, entropies = [- 1, - 4], totalEntropy = 4\<rparr>
   \<and> object (subOne (\<lambda>x. x) 1 (object (addOne (\<lambda>x. x) 1
        \<lparr>bins = 2, histogram = [1, 1], mass = 2, entropies = [- 1, - 1], totalEntropy = 2\<rparr>))) =
       \<lparr>bins = 2, histogram = [1, 1], mass = 2, entropies = [- 1, - 1], totalEntropy = 2\<rparr>"
proof -
  have run: "construct_and_run (\<lambda>x. x) (\<lambda>_. 5) (\<lambda>_. 7) 2 [AddOne 0, AddOne 1] =
     Inr \<lparr>bins = 2, histogram = [1, 1], mass = 2, entropies = [- 1, - 1], totalEntropy = 2\<rparr>"
    by (simp add: histogram_defs)
  have add: "object (addOne (\<lambda>x. x) 1
        \<lparr>bins = 2, histogram = [1, 1], mass = 2, entropies = [- 1, - 1], totalEntropy = 2\<rparr>) =
       \<lparr>bins = 2, histogram = [1, 2], mass = 3, entropies = [- 1, - 4], totalEntropy = 4\<rparr>"
    by (simp add: histogram_defs)
  from add_then_sub_restores [OF run, of 1] run add show ?thesis
    by (simp add: getSize_def)
qed

text \<open>
  Claim C4 as stated asks for exact equality of the values the code returns, which are
  \<open>float\<close>. In binary32 it fails. Two bins, the logarithm correctly rounded at 1, ..., 8
  and -127 at 0: after addOne(0) five times and addOne(1) twice, the counts are 5 and 2
  and getEntropy() is 3167667 / 524288 (about 6.0418453). Then addOne(1) and subOne(1)
  both succeed and restore the counts, the mass and the cached entropies, but
  getEntropy() is 6335333 / 1048576 (about 6.0418444), two units in the last place less:
  the eight sums and differences of the two calls round differently on the way up and
  on the way down.
\<close>

theorem add_then_sub_binary32_counterexample:
  "construct_and_run32 (log2_rounded (Finite (- 127))) (\<lambda>_. 5) (\<lambda>_. NaN) 2
     [AddOne 0, AddOne 0, AddOne 0, AddOne 0, AddOne 0, AddOne 1, AddOne 1] =
     Inr \<lparr>bins32 = 2, histogram32 = [5, 2], mass32 = Finite 7,
         entropies32 = [Finite (- (6086795 / 524288)), Finite (- 2)],
         totalEntropy32 = Finite (3167667 / 524288)\<rparr>
   \<and> addOne32 (log2_rounded (Finite (- 127))) 1
       \<lparr>bins32 = 2, histogram32 = [5, 2], mass32 = Finite 7,
       entropies32 = [Finite (- (6086795 / 524288)), Finite (- 2)],
       totalEntropy32 = Finite (3167667 / 524288)\<rparr> =
     (None,
      \<lparr>bins32 = 2, histogram32 = [5, 3], mass32 = Finite 8,
      entropies32 = [Finite (- (6086795 / 524288)), Finite (- (4985861 / 1048576))],
      totalEntropy32 = Finite (8006373 / 1048576)\<rparr>)
   \<and> subOne32 (log2_rounded (Finite (- 127))) 1
       \<lparr>bins32 = 2, histogram32 = [5, 3], mass32 = Finite 8,
       entropies32 = [Finite (- (6086795 / 524288)), Finite (- (4985861 / 1048576))],
       totalEntropy32 = Finite (8006373 / 1048576)\<rparr> =
     (None,
      \<lparr>bins32 = 2, histogram32 = [5, 2], mass32 = Finite 7,
      entropies32 = [Finite (- (6086795 / 524288)), Finite (- 2)],
      totalEntropy32 = Finite (6335333 / 1048576)\<rparr>)
   \<and> getEntropy32
       \<lparr>bins32 = 2, histogram32 = [5, 2], mass32 = Finite 7,
       entropies32 = [Finite (- (6086795 / 524288)), Finite (- 2)],
       totalEntropy32 = Finite (3167667 / 524288)\<rparr> = Finite (3167667 / 524288)
   \<and> getEntropy32
       \<lparr>bins32 = 2, histogram32 = [5, 2], mass32 = Finite 7,
       entropies32 = [Finite (- (6086795 / 524288)), Finite (- 2)],
       totalEntropy32 = Finite (6335333 / 1048576)\<rparr> = Finite (6335333 / 1048576)
   \<and> Finite (6335333 / 1048576) \<noteq> Finite (3167667 / 524288)"
proof -
  let ?f = "log2_rounded (Finite (- 127))"
  let ?s0 = "\<lparr>bins32 = 2, histogram32 = [0, 0], mass32 = Finite 0,
             entropies32 = [Finite 0, Finite 0],
             totalEntropy32 = Finite 0\<rparr>"
  let ?s1 = "\<lparr>bins32 = 2, histogram32 = [1, 0], mass32 = Finite 1,
             entropies32 = [Finite 0, Finite 0],
             totalEntropy32 = Finite 0\<rparr>"
  let ?s2 = "\<lparr>bins32 = 2, histogram32 = [2, 0], mass32 = Finite 2,
             entropies32 = [Finite (- 2), Finite 0],
             totalEntropy32 = Finite 0\<rparr>"
  let ?s3 = "\<lparr>bins32 = 2, histogram32 = [3, 0], mass32 = Finite 3,
             entropies32 = [Finite (- (4985861 / 1048576)), Finite 0],
             totalEntropy32 = Finite 0\<rparr>"
  let ?s4 = "\<lparr>bins32 = 2, histogram32 = [4, 0], mass32 = Finite 4,
             entropies32 = [Finite (- 8), Finite 0],
             totalEntropy32 = Finite 0\<rparr>"
  let ?s5 = "\<lparr>bins32 = 2, histogram32 = [5, 0], mass32 = Finite 5,
             entropies32 = [Finite (- (6086795 / 524288)), Finite 0],
             totalEntropy32 = Finite 0\<rparr>"
  let ?s6 = "\<lparr>bins32 = 2, histogram32 = [5, 1], mass32 = Finite 6,
             entropies32 = [Finite (- (6086795 / 524288)), Finite 0],
             totalEntropy32 = Finite (1022397 / 262144)\<rparr>"
  let ?s7 = "\<lparr>bins32 = 2, histogram32 = [5, 2], mass32 = Finite 7,
             entropies32 = [Finite (- (6086795 / 524288)), Finite (- 2)],
             totalEntropy32 = Finite (3167667 / 524288)\<rparr>"
  let ?s8 = "\<lparr>bins32 = 2, histogram32 = [5, 3], mass32 = Finite 8,
             entropies32 = [Finite (- (6086795 / 524288)), Finite (- (4985861 / 1048576))],
             totalEntropy32 = Finite (8006373 / 1048576)\<rparr>"
  let ?s9 = "\<lparr>bins32 = 2, histogram32 = [5, 2], mass32 = Finite 7,
             entropies32 = [Finite (- (6086795 / 524288)), Finite (- 2)],
             totalEntropy32 = Finite (6335333 / 1048576)\<rparr>"
  have c: "EfficientEntropyHistogram32_bins (\<lambda>_. 5) (\<lambda>_. NaN) 2 = Inr ?s0"
    by (simp add: constructor32_defs)
  have s1: "addOne32 ?f 0 ?s0 = (None, ?s1)"
    by (simp add: addOne32_step arith32_defs)
  have s2: "addOne32 ?f 0 ?s1 = (None, ?s2)"
    by (simp add: addOne32_step arith32_defs)
  have s3: "addOne32 ?f 0 ?s2 = (None, ?s3)"
    by (simp add: addOne32_step arith32_defs)
  have s4: "addOne32 ?f 0 ?s3 = (None, ?s4)"
    by (simp add: addOne32_step arith32_defs)
  have s5: "addOne32 ?f 0 ?s4 = (None, ?s5)"
    by (simp add: addOne32_step arith32_defs)
  have s6: "addOne32 ?f 1 ?s5 = (None, ?s6)"
    by (simp add: addOne32_step arith32_defs)
  have s7: "addOne32 ?f 1 ?s6 = (None, ?s7)"
    by (simp add: addOne32_step arith32_defs)
  have s8: "addOne32 ?f 1 ?s7 = (None, ?s8)"
    by (simp add: addOne32_step arith32_defs)
  have s9: "subOne32 ?f 1 ?s8 = (None, ?s9)"
    by (simp add: subOne32_step arith32_defs)
  have run: "construct_and_run32 ?f (\<lambda>_. 5) (\<lambda>_. NaN) 2
     [AddOne 0, AddOne 0, AddOne 0, AddOne 0, AddOne 0, AddOne 1, AddOne 1] = Inr ?s7"
    by (simp only: construct_and_run32_def c run32.simps perform32.simps
          s1 s2 s3 s4 s5 s6 s7 sum.case prod.case option.case)
  have before: "getEntropy32 ?s7 = Finite (3167667 / 524288)" by (simp add: getEntropy32_def)
  have after: "getEntropy32 ?s9 = Finite (6335333 / 1048576)" by (simp add: getEntropy32_def)
  have differ: "Finite (6335333 / 1048576) \<noteq> Finite (3167667 / 524288)" by simp
  show ?thesis by (intro conjI run s8 s9 before after differ)
qed

subsection \<open>Failures\<close>

text \<open>
  Claim C5. resize with a negative argument (in particular resize(-1)) fails with
  \<open>InvalidArgument\<close>; addOne(i), subOne(i) and at(i) with \<open>i < 0\<close> or \<open>i \<ge> bins\<close> fail with
  \<open>IndexOutOfRange\<close> (in particular addOne(b) on a histogram of \<open>b\<close> bins); subOne(i) on
  a bin whose count at(i) is 0 fails with \<open>PreconditionViolation\<close>. In each case the
  object after the call is the object before it, field by field, and \<open>fastlog2\<close> has not
  been evaluated: every assertion comes before the first assignment of its method.
\<close>

theorem failures_leave_state_unchanged:
  "(newBins < 0 \<longrightarrow> resize ui uf newBins h = (Some InvalidArgument, h, []))
   \<and> resize ui uf (- 1) h = (Some InvalidArgument, h, [])
   \<and> (i < 0 \<or> bins h \<le> i \<longrightarrow>
        addOne fastlog2 i h = (Some IndexOutOfRange, h, [])
        \<and> subOne fastlog2 i h = (Some IndexOutOfRange, h, [])
        \<and> at_bin h i = Inl IndexOutOfRange)
   \<and> addOne fastlog2 (bins h) h = (Some IndexOutOfRange, h, [])
   \<and> (0 \<le> i \<and> i < bins h \<and> at_bin h i = Inr 0 \<longrightarrow>
        subOne fastlog2 i h = (Some PreconditionViolation, h, []))"
proof -
  have "at_bin h i = Inl IndexOutOfRange" if "i < 0 \<or> bins h \<le> i"
    using that by (auto simp: at_bin_def BOOST_ASSERT_MSG_def)
  moreover have "subOne fastlog2 i h = (Some PreconditionViolation, h, [])"
    if "0 \<le> i \<and> i < bins h \<and> at_bin h i = Inr 0"
    using that by (intro subOne_empty_bin) (auto simp: at_bin_def BOOST_ASSERT_MSG_def)
  ultimately show ?thesis
    by (auto simp: resize_negative addOne_invalid subOne_invalid)
qed

theorem failures_leave_state_unchanged_witness:
  "resize (\<lambda>_. 5) (\<lambda>_. 7) (- 1)
      \<lparr>bins = 2, histogram = [0, 1], mass = 1, entropies = [0, - 1], totalEntropy = 0\<rparr> =
     (Some InvalidArgument,
      \<lparr>bins = 2, histogram = [0, 1], mass = 1, entropies = [0, - 1], totalEntropy = 0\<rparr>, [])
   \<and> addOne (\<lambda>x. x) 2
      \<lparr>bins = 2, histogram = [0, 1], mass = 1, entropies = [0, - 1], totalEntropy = 0\<rparr> =
     (Some IndexOutOfRange,
      \<lparr>bins = 2, histogram = [0, 1], mass = 1, entropies = [0, - 1], totalEntropy = 0\<rparr>, [])
   \<and> subOne (\<lambda>x. x) (- 1)
      \<lparr>bins = 2, histogram = [0, 1], mass = 1, entropies = [0, - 1], totalEntropy = 0\<rparr> =
     (Some IndexOutOfRange,
      \<lparr>bins = 2, histogram = [0, 1], mass = 1, entropies = [0, - 1], totalEntropy = 0\<rparr>, [])
   \<and> at_bin \<lparr>bins = 2, histogram = [0, 1], mass = 1, entropies = [0, - 1], totalEntropy = 0\<rparr> 2 =
     Inl IndexOutOfRange
   \<and> at_bin \<lparr>bins = 2, histogram = [0, 1], mass = 1, entropies = [0, - 1], totalEntropy = 0\<rparr> 0 =
     Inr 0
   \<and> subOne (\<lambda>x. x) 0
      \<lparr>bins = 2, histogram = [0, 1], mass = 1, entropies = [0, - 1], totalEntropy = 0\<rparr> =
     (Some PreconditionViolation,
      \<lparr>bins = 2, histogram = [0, 1], mass = 1, entropies = [0, - 1], totalEntropy = 0\<rparr>, [])"
proof -
  let ?h = "\<lparr>bins = 2, histogram = [0, 1], mass = 1, entropies = [0, - 1], totalEntropy = 0\<rparr>"
  have at0: "at_bin ?h 0 = Inr 0" by (simp add: at_bin_def BOOST_ASSERT_MSG_def)
  from failures_leave_state_unchanged [of "- 1" "\<lambda>_. 5" "\<lambda>_. 7" ?h 2 "\<lambda>x. x"]
       failures_leave_state_unchanged [of "- 1" "\<lambda>_. 5" "\<lambda>_. 7" ?h "- 1" "\<lambda>x. x"]
       failures_leave_state_unchanged [of "- 1" "\<lambda>_. 5" "\<lambda>_. 7" ?h 0 "\<lambda>x. x"] at0
  show ?thesis by simp
qed

subsection \<open>Zero entropy\<close>








subsection \<open>The end-to-end scenario\<close>

text \<open>
  Claim C7. The claim expects, with the exact base-2 logarithm for \<open>fastlog2\<close>, mass 4,
  counts 2, 1, 1 and entropy 6 after addOne(0), addOne(0), addOne(1), addOne(2) on a
  fresh histogram of 3 bins, and mass 2, count 0 in bin 0 and entropy 2 after two more
  calls subOne(0). The counts and the mass are as expected. The entropy is not: the
  first addOne computes \<open>ENTROPY(mass)\<close> at mass 0, the exact logarithm of 0 is minus
  infinity, the product of 0 and an infinity is NaN, and NaN stays in \<open>totalEntropy\<close>
  through every later sum and difference. getEntropy() is NaN after the four calls and
  after the six.
\<close>

theorem scenario_binary32_exact_log2:
  "ENTROPY32 (log2_rounded MinusInfinity) (Finite 0) = NaN
   \<and> construct_and_run32 (log2_rounded MinusInfinity) ui uf 3
       [AddOne 0, AddOne 0, AddOne 1, AddOne 2] =
     Inr \<lparr>bins32 = 3, histogram32 = [2, 1, 1], mass32 = Finite 4,
          entropies32 = [Finite (- 2), Finite 0, Finite 0], totalEntropy32 = NaN\<rparr>
   \<and> getEntropy32
       \<lparr>bins32 = 3, histogram32 = [2, 1, 1], mass32 = Finite 4,
        entropies32 = [Finite (- 2), Finite 0, Finite 0], totalEntropy32 = NaN\<rparr> = NaN
   \<and> construct_and_run32 (log2_rounded MinusInfinity) ui uf 3
       [AddOne 0, AddOne 0, AddOne 1, AddOne 2, SubOne 0, SubOne 0] =
     Inr \<lparr>bins32 = 3, histogram32 = [0, 1, 1], mass32 = Finite 2,
          entropies32 = [Finite 0, Finite 0, Finite 0], totalEntropy32 = NaN\<rparr>
   \<and> getEntropy32
       \<lparr>bins32 = 3, histogram32 = [0, 1, 1], mass32 = Finite 2,
        entropies32 = [Finite 0, Finite 0, Finite 0], totalEntropy32 = NaN\<rparr> = NaN"
proof -
  let ?f = "log2_rounded MinusInfinity"
  let ?t0 = "\<lparr>bins32 = 3, histogram32 = [0, 0, 0], mass32 = Finite 0,
              entropies32 = [Finite 0, Finite 0, Finite 0], totalEntropy32 = Finite 0\<rparr>"
  let ?t1 = "\<lparr>bins32 = 3, histogram32 = [1, 0, 0], mass32 = Finite 1,
              entropies32 = [Finite 0, Finite 0, Finite 0], totalEntropy32 = NaN\<rparr>"
  let ?t2 = "\<lparr>bins32 = 3, histogram32 = [2, 0, 0], mass32 = Finite 2,
              entropies32 = [Finite (- 2), Finite 0, Finite 0], totalEntropy32 = NaN\<rparr>"
  let ?t3 = "\<lparr>bins32 = 3, histogram32 = [2, 1, 0], mass32 = Finite 3,
              entropies32 = [Finite (- 2), Finite 0, Finite 0], totalEntropy32 = NaN\<rparr>"
  let ?t4 = "\<lparr>bins32 = 3, histogram32 = [2, 1, 1], mass32 = Finite 4,
              entropies32 = [Finite (- 2), Finite 0, Finite 0], totalEntropy32 = NaN\<rparr>"
  let ?t5 = "\<lparr>bins32 = 3, histogram32 = [1, 1, 1], mass32 = Finite 3,
              entropies32 = [Finite 0, Finite 0, Finite 0], totalEntropy32 = NaN\<rparr>"
  let ?t6 = "\<lparr>bins32 = 3, histogram32 = [0, 1, 1], mass32 = Finite 2,
              entropies32 = [Finite 0, Finite 0, Finite 0], totalEntropy32 = NaN\<rparr>"
  have z: "ENTROPY32 ?f (Finite 0) = NaN"
    by (simp add: ENTROPY32_def log2_rounded_def)
  have c: "EfficientEntropyHistogram32_bins ui uf 3 = Inr ?t0" by (rule constructor32_bins_3)
  have s1: "addOne32 ?f 0 ?t0 = (None, ?t1)" by (simp add: addOne32_step arith32_defs)
  have s2: "addOne32 ?f 0 ?t1 = (None, ?t2)" by (simp add: addOne32_step arith32_defs)
  have s3: "addOne32 ?f 1 ?t2 = (None, ?t3)" by (simp add: addOne32_step arith32_defs)
  have s4: "addOne32 ?f 2 ?t3 = (None, ?t4)" by (simp add: addOne32_step arith32_defs)
  have s5: "subOne32 ?f 0 ?t4 = (None, ?t5)" by (simp add: subOne32_step arith32_defs)
  have s6: "subOne32 ?f 0 ?t5 = (None, ?t6)" by (simp add: subOne32_step arith32_defs)
  have r4: "construct_and_run32 ?f ui uf 3 [AddOne 0, AddOne 0, AddOne 1, AddOne 2] = Inr ?t4"
    by (simp only: construct_and_run32_def c run32.simps perform32.simps
          s1 s2 s3 s4 sum.case prod.case option.case)
  have r6: "construct_and_run32 ?f ui uf 3
      [AddOne 0, AddOne 0, AddOne 1, AddOne 2, SubOne 0, SubOne 0] = Inr ?t6"
    by (simp only: construct_and_run32_def c run32.simps perform32.simps
          s1 s2 s3 s4 s5 s6 sum.case prod.case option.case)
  have e4: "getEntropy32 ?t4 = NaN" by (simp add: getEntropy32_def)
  have e6: "getEntropy32 ?t6 = NaN" by (simp add: getEntropy32_def)
  show ?thesis by (intro conjI z r4 e4 r6 e6)
qed

text \<open>
  With a logarithm that has a finite value \<open>z\<close> at 0 and is correctly rounded at 1, 2, 3
  and 4, the same calls give exactly the entropies 6 and 2 in binary32: only the
  evaluation at 0 stands between the code and the expected values.
\<close>

lemma scenario_binary32_finite_at_zero:
  "construct_and_run32 (log2_rounded (Finite z)) ui uf 3
       [AddOne 0, AddOne 0, AddOne 1, AddOne 2] =
     Inr \<lparr>bins32 = 3, histogram32 = [2, 1, 1], mass32 = Finite 4,
          entropies32 = [Finite (- 2), Finite 0, Finite 0], totalEntropy32 = Finite 6\<rparr>
   \<and> construct_and_run32 (log2_rounded (Finite z)) ui uf 3
       [AddOne 0, AddOne 0, AddOne 1, AddOne 2, SubOne 0, SubOne 0] =
     Inr \<lparr>bins32 = 3, histogram32 = [0, 1, 1], mass32 = Finite 2,
          entropies32 = [Finite 0, Finite 0, Finite 0], totalEntropy32 = Finite 2\<rparr>"
proof -
  let ?f = "log2_rounded (Finite z)"
  let ?t0 = "\<lparr>bins32 = 3, histogram32 = [0, 0, 0], mass32 = Finite 0,
              entropies32 = [Finite 0, Finite 0, Finite 0], totalEntropy32 = Finite 0\<rparr>"
  let ?t1 = "\<lparr>bins32 = 3, histogram32 = [1, 0, 0], mass32 = Finite 1,
              entropies32 = [Finite 0, Finite 0, Finite 0], totalEntropy32 = Finite 0\<rparr>"
  let ?t2 = "\<lparr>bins32 = 3, histogram32 = [2, 0, 0], mass32 = Finite 2,
              entropies32 = [Finite (- 2), Finite 0, Finite 0], totalEntropy32 = Finite 0\<rparr>"
  let ?t3 = "\<lparr>bins32 = 3, histogram32 = [2, 1, 0], mass32 = Finite 3,
              entropies32 = [Finite (- 2), Finite 0, Finite 0],
              totalEntropy32 = Finite (2888709 / 1048576)\<rparr>"
  let ?t4 = "\<lparr>bins32 = 3, histogram32 = [2, 1, 1], mass32 = Finite 4,
              entropies32 = [Finite (- 2), Finite 0, Finite 0], totalEntropy32 = Finite 6\<rparr>"
  let ?t5 = "\<lparr>bins32 = 3, histogram32 = [1, 1, 1], mass32 = Finite 3,
              entropies32 = [Finite 0, Finite 0, Finite 0],
              totalEntropy32 = Finite (4985861 / 1048576)\<rparr>"
  let ?t6 = "\<lparr>bins32 = 3, histogram32 = [0, 1, 1], mass32 = Finite 2,
              entropies32 = [Finite 0, Finite 0, Finite 0], totalEntropy32 = Finite 2\<rparr>"
  have c: "EfficientEntropyHistogram32_bins ui uf 3 = Inr ?t0" by (rule constructor32_bins_3)
  have s1: "addOne32 ?f 0 ?t0 = (None, ?t1)" by (simp add: addOne32_step arith32_defs)
  have s2: "addOne32 ?f 0 ?t1 = (None, ?t2)" by (simp add: addOne32_step arith32_defs)
  have s3: "addOne32 ?f 1 ?t2 = (None, ?t3)" by (simp add: addOne32_step arith32_defs)
  have s4: "addOne32 ?f 2 ?t3 = (None, ?t4)" by (simp add: addOne32_step arith32_defs)
  have s5: "subOne32 ?f 0 ?t4 = (None, ?t5)" by (simp add: subOne32_step arith32_defs)
  have s6: "subOne32 ?f 0 ?t5 = (None, ?t6)" by (simp add: subOne32_step arith32_defs)
  have r4: "construct_and_run32 ?f ui uf 3 [AddOne 0, AddOne 0, AddOne 1, AddOne 2] = Inr ?t4"
    by (simp only: construct_and_run32_def c run32.simps perform32.simps
          s1 s2 s3 s4 sum.case prod.case option.case)
  have r6: "construct_and_run32 ?f ui uf 3
      [AddOne 0, AddOne 0, AddOne 1, AddOne 2, SubOne 0, SubOne 0] = Inr ?t6"
    by (simp only: construct_and_run32_def c run32.simps perform32.simps
          s1 s2 s3 s4 s5 s6 sum.case prod.case option.case)
  show ?thesis by (intro conjI r4 r6)
qed

subsection \<open>isPure\<close>

text \<open>
  The loop of isPure() from index \<open>i\<close> with the flag \<open>nonPure\<close>: it returns true exactly
  when the number of positive counts from \<open>i\<close> on, plus one if the flag is set, is at
  most 1.
\<close>

lemma isPure_loop_count:
  "\<lbrakk>0 \<le> i; length (histogram h) = nat (bins h)\<rbrakk>
   \<Longrightarrow> isPure_loop h i nonPure =
         (length (filter (\<lambda>c. 0 < c) (drop (nat i) (histogram h)))
            + (if nonPure then 1 else 0) \<le> 1)"
proof (induction h i nonPure rule: isPure_loop.induct)
  case (1 h i nonPure)
  show ?case
  proof (cases "i < bins h")
    case False
    then have "isPure_loop h i nonPure = True" by (subst isPure_loop.simps) simp
    moreover from False "1.prems" have "drop (nat i) (histogram h) = []" by simp
    ultimately show ?thesis by simp
  next
    case True
    with "1.prems" have k: "nat i < length (histogram h)" and next_i: "nat (i + 1) = Suc (nat i)"
      by linarith+
    from k have split: "drop (nat i) (histogram h) =
        histogram h ! nat i # drop (Suc (nat i)) (histogram h)"
      by (simp add: Cons_nth_drop_Suc)
    from "1.prems" have i1: "0 \<le> i + 1" by simp
    show ?thesis
    proof (cases "0 < histogram h ! nat i")
      case pos: True
      show ?thesis
      proof (cases nonPure)
        case True
        with \<open>i < bins h\<close> pos have "isPure_loop h i nonPure = False"
          by (subst isPure_loop.simps) simp
        with True pos show ?thesis unfolding split by simp
      next
        case False
        with \<open>i < bins h\<close> pos have "isPure_loop h i nonPure = isPure_loop h (i + 1) True"
          by (subst isPure_loop.simps) simp
        with "1.IH"(1) [OF \<open>i < bins h\<close> pos False i1 "1.prems"(2)] False pos
        show ?thesis unfolding split next_i by simp
      qed
    next
      case notpos: False
      with True have "isPure_loop h i nonPure = isPure_loop h (i + 1) nonPure"
        by (subst isPure_loop.simps) simp
      with "1.IH"(2) [OF True notpos i1 "1.prems"(2)] notpos
      show ?thesis unfolding split next_i by simp
    qed
  qed
qed

lemma isPure_counts_positive:
  "length (histogram h) = nat (bins h)
   \<Longrightarrow> isPure h = (length (filter (\<lambda>c. 0 < c) (histogram h)) \<le> 1)"
  using isPure_loop_count [of 0 h False] by (simp add: isPure_def)

lemma reachable_counts:
  assumes "construct_and_run fastlog2 ui uf b cs = Inr h"
  shows "length (histogram h) = nat (bins h) \<and> list_all (\<lambda>c. 0 \<le> c) (histogram h)"
proof -
  from assms have "hist_weak_inv fastlog2 h" by (rule reachable_weak_inv)
  then show ?thesis
    by (auto simp: hist_weak_inv_def hist_inv_def well_formed_def consistent_def)
qed

text \<open>
  Claim C8. For every histogram a caller can reach, isPure() returns true exactly when
  at most one bin has a nonzero count: true when all counts are zero (also with no bins
  at all) or when exactly one is nonzero, false when two or more are. The method is
  const: in the embedding it is a function of the object that returns a truth value
  only. (The loop tests \<open>histogram[i] > 0\<close>; no reachable count is negative.)
\<close>

theorem isPure_reachable:
  assumes "construct_and_run fastlog2 ui uf b cs = Inr h"
  shows "isPure h = (length (filter (\<lambda>c. c \<noteq> 0) (histogram h)) \<le> 1)"
proof -
  from assms have len: "length (histogram h) = nat (bins h)"
    and nonneg: "list_all (\<lambda>c. 0 \<le> c) (histogram h)"
    by (auto dest: reachable_counts)
  from nonneg have "filter (\<lambda>c. 0 < c) (histogram h) = filter (\<lambda>c. c \<noteq> 0) (histogram h)"
    by (intro filter_cong) (auto simp: list_all_iff)
  with isPure_counts_positive [OF len] show ?thesis by simp
qed

text \<open>
  Three bins: counts 0, 2, 0 are pure, counts 1, 0, 1 are not; a histogram without
  bins is pure.
\<close>

theorem isPure_reachable_witness:
  "construct_and_run (\<lambda>x. x) (\<lambda>_. 5) (\<lambda>_. 7) 3 [AddOne 1, AddOne 1] =
     Inr \<lparr>bins = 3, histogram = [0, 2, 0], mass = 2, entropies = [0, - 4, 0], totalEntropy = 0\<rparr>
   \<and> isPure \<lparr>bins = 3, histogram = [0, 2, 0], mass = 2, entropies = [0, - 4, 0], totalEntropy = 0\<rparr>
   \<and> construct_and_run (\<lambda>x. x) (\<lambda>_. 5) (\<lambda>_. 7) 3 [AddOne 0, AddOne 2] =
     Inr \<lparr>bins = 3, histogram = [1, 0, 1], mass = 2, entropies = [- 1, 0, - 1], totalEntropy = 2\<rparr>
   \<and> \<not> isPure \<lparr>bins = 3, histogram = [1, 0, 1], mass = 2, entropies = [- 1, 0, - 1], totalEntropy = 2\<rparr>
   \<and> construct_and_run (\<lambda>x. x) (\<lambda>_. 5) (\<lambda>_. 7) 0 [] =
     Inr \<lparr>bins = 0, histogram = [], mass = 0, entropies = [], totalEntropy = 0\<rparr>
   \<and> isPure \<lparr>bins = 0, histogram = [], mass = 0, entropies = [], totalEntropy = 0\<rparr>"
proof -
  let ?one = "\<lparr>bins = 3, histogram = [0, 2, 0], mass = 2, entropies = [0, - 4, 0], totalEntropy = 0\<rparr>"
  let ?two = "\<lparr>bins = 3, histogram = [1, 0, 1], mass = 2, entropies = [- 1, 0, - 1], totalEntropy = 2\<rparr>"
  let ?none = "\<lparr>bins = 0, histogram = [], mass = 0, entropies = [], totalEntropy = 0\<rparr>"
  have r1: "construct_and_run (\<lambda>x. x) (\<lambda>_. 5) (\<lambda>_. 7) 3 [AddOne 1, AddOne 1] = Inr ?one"
    by (simp add: histogram_defs)
  have r2: "construct_and_run (\<lambda>x. x) (\<lambda>_. 5) (\<lambda>_. 7) 3 [AddOne 0, AddOne 2] = Inr ?two"
    by (simp add: histogram_defs)
  have r3: "construct_and_run (\<lambda>x. x) (\<lambda>_. 5) (\<lambda>_. 7) 0 [] = Inr ?none"
    by (simp add: histogram_defs)
  from isPure_reachable [OF r1] have p1: "isPure ?one" by simp
  from isPure_reachable [OF r2] have p2: "\<not> isPure ?two" by simp
  from isPure_reachable [OF r3] have p3: "isPure ?none" by simp
  show ?thesis by (intro conjI r1 r2 r3 p1 p2 p3)
qed

end
